theory Spec2Isabelle
  imports Main "HOL-Library.Word"
begin

section \<open>The IDL tree consumed by the Rust generator\<close>

text \<open>
  The generator \<^verbatim>\<open>t_rs_generator\<close> walks the parsed IDL tree. The tree classes
  (\<^verbatim>\<open>t_type\<close>, \<^verbatim>\<open>t_field\<close>, \<^verbatim>\<open>t_struct\<close>, ...) are declared outside the generator;
  they are rendered here as datatypes and records holding what the generator reads
  through their accessors.
\<close>

type_synonym int32 = "32 word"

datatype t_base =
  TYPE_VOID | TYPE_STRING | TYPE_UUID | TYPE_BOOL
  | TYPE_I8 | TYPE_I16 | TYPE_I32 | TYPE_I64 | TYPE_DOUBLE

text \<open>
  A type node. Named nodes carry the name of the declaring program and their own name.
  \<open>Base b binary\<close>: \<^verbatim>\<open>is_base_type()\<close>, with the \<^verbatim>\<open>is_binary()\<close> flag of strings.
  \<open>Typedef prog symbolic aliased forward\<close>: \<^verbatim>\<open>is_typedef()\<close>.
  \<open>Struct\<close> covers structs and unions (\<^verbatim>\<open>is_struct()\<close>), \<open>Xception\<close> exceptions.
\<close>

datatype t_type =
  Base t_base bool
  | Typedef string string t_type bool
  | Enum string string
  | Struct string string
  | Xception string string
  | Map t_type t_type
  | Set t_type
  | List t_type
  | Service string string

text \<open>
  Modelled from the spec: \<^verbatim>\<open>get_true_type\<close> is declared in the generator base class,
  which is not part of the sources at hand. The generator's own comment says it
  "recurses through as many typedef layers as necessary"; the spec's type algebra has
  \<open>Typedef(name, inner, forward?)\<close>.
\<close>

fun get_true_type :: "t_type \<Rightarrow> t_type" where
  "get_true_type (Typedef prog symbolic aliased forward) = get_true_type aliased"
| "get_true_type t = t"

fun is_base_type :: "t_type \<Rightarrow> bool" where
  "is_base_type (Base b binary) = True"
| "is_base_type t = False"

fun is_service :: "t_type \<Rightarrow> bool" where
  "is_service (Service prog n) = True"
| "is_service t = False"

text \<open>The name a type node answers to \<^verbatim>\<open>get_name()\<close> with, where the generator uses it.\<close>

fun type_name :: "t_type \<Rightarrow> string" where
  "type_name (Typedef prog symbolic aliased forward) = symbolic"
| "type_name (Enum prog n) = n"
| "type_name (Struct prog n) = n"
| "type_name (Xception prog n) = n"
| "type_name (Service prog n) = n"
| "type_name t = []"

datatype e_req = T_REQUIRED | T_OPTIONAL | T_OPT_IN_REQ_OUT

record t_field =
  fld_key :: int32
  fld_name :: string
  fld_type :: t_type
  fld_req :: e_req

record t_struct =
  st_name :: string
  st_members :: "t_field list"
  st_is_union :: bool
  st_is_xception :: bool

text \<open>
  Modelled from the spec: \<^verbatim>\<open>get_sorted_members\<close> belongs to \<^verbatim>\<open>t_struct\<close>, outside the
  sources at hand. The spec: "Fields are sorted by a stable key for emission
  (assume ascending field-id)".
\<close>

definition get_sorted_members :: "t_struct \<Rightarrow> t_field list" where
  "get_sorted_members s = sort_key (\<lambda>f. sint (fld_key f)) (st_members s)"

record t_enum_value =
  ev_name :: string
  ev_value :: int32

record t_enum =
  en_name :: string
  en_constants :: "t_enum_value list"

record t_function =
  fn_name :: string
  fn_returntype :: t_type
  fn_arglist :: t_struct
  fn_xceptions :: t_struct
  fn_oneway :: bool

datatype t_service =
  T_service (svc_name: string) (svc_functions: "t_function list") (svc_extends: "t_service option")

text \<open>The generator's own struct flavours (\<^verbatim>\<open>enum e_struct_type\<close>).\<close>

datatype e_struct_type = T_REGULAR | T_ARGS | T_RESULT | T_EXCEPTION

definition SERVICE_RESULT_VARIABLE :: string where
  "SERVICE_RESULT_VARIABLE = ''result_value''"

definition RESULT_STRUCT_SUFFIX :: string where
  "RESULT_STRUCT_SUFFIX = ''Result''"

definition RUST_RESERVED_WORDS :: "string list" where
  "RUST_RESERVED_WORDS =
     [''abstract'', ''alignof'', ''as'', ''become'', ''box'', ''break'', ''const'', ''continue'',
      ''crate'', ''do'', ''else'', ''enum'', ''extern'', ''false'', ''final'', ''fn'', ''for'',
      ''if'', ''impl'', ''in'', ''let'', ''loop'', ''macro'', ''match'', ''mod'', ''move'',
      ''mut'', ''offsetof'', ''override'', ''priv'', ''proc'', ''pub'', ''pure'', ''ref'',
      ''return'', ''Self'', ''self'', ''sizeof'', ''static'', ''struct'', ''super'', ''trait'',
      ''true'', ''type'', ''typeof'', ''unsafe'', ''unsized'', ''use'', ''virtual'', ''where'',
      ''while'', ''yield'']"


section \<open>Strings\<close>

text \<open>
  \<^verbatim>\<open>std::to_string(int)\<close>: the decimal digits of the value, with a leading minus sign
  for a negative one.
\<close>

definition digit_char :: "nat \<Rightarrow> char" where
  "digit_char d = ''0123456789'' ! d"

function dec_nat :: "nat \<Rightarrow> string" where
  "dec_nat n = (if n < 10 then [digit_char n] else dec_nat (n div 10) @ [digit_char (n mod 10)])"
  by pat_completeness auto
termination
  by (relation "measure id") auto

declare dec_nat.simps [simp del]

definition to_string :: "int \<Rightarrow> string" where
  "to_string i = (if i < 0 then CHR ''-'' # dec_nat (nat (- i)) else dec_nat (nat i))"

text \<open>The character classes of the C locale: \<^verbatim>\<open>isdigit\<close>, \<^verbatim>\<open>islower\<close>, \<^verbatim>\<open>isupper\<close>.\<close>

definition is_digit :: "char \<Rightarrow> bool" where
  "is_digit c = (c \<in> set ''0123456789'')"

definition is_lower :: "char \<Rightarrow> bool" where
  "is_lower c = (c \<in> set ''abcdefghijklmnopqrstuvwxyz'')"

definition is_upper :: "char \<Rightarrow> bool" where
  "is_upper c = (c \<in> set ''ABCDEFGHIJKLMNOPQRSTUVWXYZ'')"

definition to_lower :: "char \<Rightarrow> char" where
  "to_lower c =
     (case map_of (zip ''ABCDEFGHIJKLMNOPQRSTUVWXYZ'' ''abcdefghijklmnopqrstuvwxyz'') c of
        Some l \<Rightarrow> l | None \<Rightarrow> c)"

definition to_upper :: "char \<Rightarrow> char" where
  "to_upper c =
     (case map_of (zip ''abcdefghijklmnopqrstuvwxyz'' ''ABCDEFGHIJKLMNOPQRSTUVWXYZ'') c of
        Some u \<Rightarrow> u | None \<Rightarrow> c)"

text \<open>
  What may follow the first character of a Rust identifier: ASCII letters, digits and
  the underscore. The generator appends field ids to a prefix (\<^verbatim>\<open>f_\<close>, \<^verbatim>\<open>F\<close>), so the
  mangled id has to consist of such characters.
\<close>

definition is_ident_char :: "char \<Rightarrow> bool" where
  "is_ident_char c = (is_digit c \<or> is_lower c \<or> is_upper c \<or> c = CHR ''_'')"

definition valid_identifier_tail :: "string \<Rightarrow> bool" where
  "valid_identifier_tail s = (s \<noteq> [] \<and> list_all is_ident_char s)"

text \<open>
  \<^verbatim>\<open>std::string::find(pat, pos)\<close>: the least index from \<open>pos\<close> on at which \<open>pat\<close> occurs,
  \<open>None\<close> for \<^verbatim>\<open>npos\<close>. \<^verbatim>\<open>std::string::replace(pos, len, repl)\<close> for \<open>pos\<close> within the
  string; \<open>len\<close> is cut off at the end of the string.
\<close>

primrec str_find_first :: "string \<Rightarrow> string \<Rightarrow> nat option" where
  "str_find_first [] pat = (if pat = [] then Some 0 else None)"
| "str_find_first (c # cs) pat =
     (if take (length pat) (c # cs) = pat then Some 0
      else map_option Suc (str_find_first cs pat))"

definition str_find :: "string \<Rightarrow> string \<Rightarrow> nat \<Rightarrow> nat option" where
  "str_find target pat pos =
     (if length target < pos then None
      else map_option (\<lambda>i. pos + i) (str_find_first (drop pos target) pat))"

definition str_replace :: "string \<Rightarrow> nat \<Rightarrow> nat \<Rightarrow> string \<Rightarrow> string" where
  "str_replace target pos len repl = take pos target @ repl @ drop (pos + len) target"

definition contains :: "string \<Rightarrow> string \<Rightarrow> bool" where
  "contains s pat = (str_find_first s pat \<noteq> None)"


section \<open>Name mangling\<close>

text \<open>
  \<^verbatim>\<open>abs\<close> on a 32-bit \<^verbatim>\<open>int\<close>. The negation of a two's-complement value wraps, so
  the most negative value is its own negation (C++ leaves that case undefined;
  the usual targets return the operand unchanged).
\<close>

definition abs_i32 :: "int32 \<Rightarrow> int32" where
  "abs_i32 x = (if x <s 0 then - x else x)"

definition rust_safe_field_id :: "int32 \<Rightarrow> string" where
  "rust_safe_field_id id' =
     (let id_str = to_string (sint (abs_i32 id'))
      in if 0 \<le>s id' then id_str else ''neg'' @ id_str)"

text \<open>
  Modelled from the spec: \<^verbatim>\<open>underscore\<close>, \<^verbatim>\<open>decapitalize\<close> and \<^verbatim>\<open>uppercase\<close> are helpers
  of the generator base class, outside the sources at hand. The spec describes the
  snake case as "decapitalize + insert underscores before capitals" and the upper case
  as "uppercase + underscore segmentation": \<open>underscore\<close> lowers the first character
  and puts \<open>_\<close> and the lowered letter for every later capital.
\<close>

fun underscore_rest :: "string \<Rightarrow> string" where
  "underscore_rest [] = []"
| "underscore_rest (c # cs) =
     (if is_upper c then CHR ''_'' # to_lower c # underscore_rest cs else c # underscore_rest cs)"

fun underscore :: "string \<Rightarrow> string" where
  "underscore [] = []"
| "underscore (c # cs) = to_lower c # underscore_rest cs"

fun decapitalize :: "string \<Rightarrow> string" where
  "decapitalize [] = []"
| "decapitalize (c # cs) = to_lower c # cs"

definition uppercase :: "string \<Rightarrow> string" where
  "uppercase s = map to_upper s"

text \<open>
  \<^verbatim>\<open>string_replace\<close>: the \<^verbatim>\<open>while\<close> loop searches from \<open>search_idx\<close>, replaces the match
  and goes on behind the replacement. With an empty search string the loop never ends;
  \<open>None\<close> stands for a run that does not return.
\<close>

partial_function (option) string_replace_loop ::
  "string \<Rightarrow> string \<Rightarrow> string \<Rightarrow> nat \<Rightarrow> string option" where
  "string_replace_loop target search_string replace_string search_idx =
     (case str_find target search_string search_idx of
        None \<Rightarrow> Some target
      | Some match_idx \<Rightarrow>
          string_replace_loop
            (str_replace target match_idx (length search_string) replace_string)
            search_string replace_string (match_idx + length replace_string))"

definition string_replace :: "string \<Rightarrow> string \<Rightarrow> string \<Rightarrow> string option" where
  "string_replace target search_string replace_string =
     (if target = [] then Some target
      else string_replace_loop target search_string replace_string 0)"

definition rust_snake_case :: "string \<Rightarrow> string option" where
  "rust_snake_case name = string_replace (decapitalize (underscore name)) ''__'' ''_''"

definition rust_enum_variant_name :: "string \<Rightarrow> string option" where
  "rust_enum_variant_name name =
     (let all_uppercase = \<not> list_ex is_lower name
      in if all_uppercase then Some name
         else string_replace (uppercase (underscore name)) ''__'' ''_'')"

definition is_reserved :: "string \<Rightarrow> bool" where
  "is_reserved name = (name \<in> set RUST_RESERVED_WORDS)"

definition rust_safe_name :: "string \<Rightarrow> string" where
  "rust_safe_name name = (if is_reserved name then name @ ''_'' else name)"

text \<open>
  \<^verbatim>\<open>rust_namespace\<close> compares the declaring program of a type with the program being
  generated, and \<^verbatim>\<open>rust_camel_case\<close> rests on \<^verbatim>\<open>camelcase\<close> and \<^verbatim>\<open>capitalize\<close> of the
  generator base class. Both only shape type names; they are parameters of the model,
  \<open>rust_namespace\<close> as a function of the declaring program's name.
\<close>

record mangler =
  rust_namespace :: "string \<Rightarrow> string"
  rust_camel_case :: "string \<Rightarrow> string"

definition rust_struct_name :: "mangler \<Rightarrow> t_struct \<Rightarrow> string" where
  "rust_struct_name mg tstruct = rust_safe_name (rust_camel_case mg (st_name tstruct))"


section \<open>Type mapper\<close>

definition is_optional :: "e_req \<Rightarrow> bool" where
  "is_optional req = (req = T_OPTIONAL \<or> req = T_OPT_IN_REQ_OUT)"

definition actual_field_req :: "t_field \<Rightarrow> e_struct_type \<Rightarrow> e_req" where
  "actual_field_req tfield struct_type =
     (if struct_type = T_ARGS then T_REQUIRED else fld_req tfield)"

text \<open>\<^verbatim>\<open>to_rust_type\<close>; a \<^verbatim>\<open>throw\<close> is the left summand, here and below.\<close>

fun to_rust_type :: "mangler \<Rightarrow> t_type \<Rightarrow> string + string" where
  "to_rust_type mg (Base b binary) =
     (case b of
        TYPE_VOID \<Rightarrow> Inr ''()''
      | TYPE_STRING \<Rightarrow> if binary then Inr ''Vec<u8>'' else Inr ''String''
      | TYPE_UUID \<Rightarrow> Inr ''uuid::Uuid''
      | TYPE_BOOL \<Rightarrow> Inr ''bool''
      | TYPE_I8 \<Rightarrow> Inr ''i8''
      | TYPE_I16 \<Rightarrow> Inr ''i16''
      | TYPE_I32 \<Rightarrow> Inr ''i32''
      | TYPE_I64 \<Rightarrow> Inr ''i64''
      | TYPE_DOUBLE \<Rightarrow> Inr ''OrderedFloat<f64>'')"
| "to_rust_type mg (Typedef prog symbolic aliased forward) =
     (let rust_type = rust_namespace mg prog @ symbolic
      in Inr (if forward then ''Box<'' @ rust_type @ ''>'' else rust_type))"
| "to_rust_type mg (Enum prog n) = Inr (rust_namespace mg prog @ rust_camel_case mg n)"
| "to_rust_type mg (Struct prog n) = Inr (rust_namespace mg prog @ rust_camel_case mg n)"
| "to_rust_type mg (Xception prog n) = Inr (rust_namespace mg prog @ rust_camel_case mg n)"
| "to_rust_type mg (Map k v) =
     (case to_rust_type mg k of
        Inl e \<Rightarrow> Inl e
      | Inr ks \<Rightarrow>
          (case to_rust_type mg v of
             Inl e \<Rightarrow> Inl e
           | Inr vs \<Rightarrow> Inr (''BTreeMap<'' @ ks @ '', '' @ vs @ ''>'')))"
| "to_rust_type mg (Set e) =
     (case to_rust_type mg e of Inl err \<Rightarrow> Inl err | Inr es \<Rightarrow> Inr (''BTreeSet<'' @ es @ ''>''))"
| "to_rust_type mg (List e) =
     (case to_rust_type mg e of Inl err \<Rightarrow> Inl err | Inr es \<Rightarrow> Inr (''Vec<'' @ es @ ''>''))"
| "to_rust_type mg (Service prog n) = Inl (''cannot find rust type for '' @ n)"

text \<open>
  \<^verbatim>\<open>opt_in_req_out_value\<close>: the Rust expression a read slot of an opt-in-req-out field
  starts with.
\<close>

definition opt_in_req_out_value :: "t_type \<Rightarrow> string + string" where
  \<open>opt_in_req_out_value ttype =
     (case get_true_type ttype of
        Base b binary \<Rightarrow>
          (case b of
             TYPE_VOID \<Rightarrow> Inl ''cannot generate OPT_IN_REQ_OUT value for void''
           | TYPE_STRING \<Rightarrow>
               if binary then Inr ''Some(Vec::new())'' else Inr ''Some("".to_owned())''
           | TYPE_UUID \<Rightarrow> Inr ''Some(uuid::Uuid::nil())''
           | TYPE_BOOL \<Rightarrow> Inr ''Some(false)''
           | TYPE_I8 \<Rightarrow> Inr ''Some(0)''
           | TYPE_I16 \<Rightarrow> Inr ''Some(0)''
           | TYPE_I32 \<Rightarrow> Inr ''Some(0)''
           | TYPE_I64 \<Rightarrow> Inr ''Some(0)''
           | TYPE_DOUBLE \<Rightarrow> Inr ''Some(OrderedFloat::from(0.0))'')
      | Enum prog n \<Rightarrow> Inr ''None''
      | Struct prog n \<Rightarrow> Inr ''None''
      | Xception prog n \<Rightarrow> Inr ''None''
      | List e \<Rightarrow> Inr ''Some(Vec::new())''
      | Set e \<Rightarrow> Inr ''Some(BTreeSet::new())''
      | Map k v \<Rightarrow> Inr ''Some(BTreeMap::new())''
      | t \<Rightarrow> Inl (''cannot generate opt-in-req-out value for type '' @ type_name t))\<close>

definition can_generate_simple_const :: "t_type \<Rightarrow> bool" where
  "can_generate_simple_const ttype =
     (case get_true_type ttype of
        Base b binary \<Rightarrow> \<not> (b = TYPE_DOUBLE)
      | _ \<Rightarrow> False)"

definition can_generate_const_holder :: "t_type \<Rightarrow> bool" where
  "can_generate_const_holder ttype =
     (let actual_type = get_true_type ttype
      in \<not> can_generate_simple_const actual_type \<and> \<not> is_service actual_type)"


section \<open>Constants\<close>

text \<open>
  \<^verbatim>\<open>generate_const\<close> picks one of two renderers: \<^verbatim>\<open>render_const_value\<close> writes the
  constant inline as \<^verbatim>\<open>pub const NAME: T = value;\<close>, \<^verbatim>\<open>render_const_value_holder\<close>
  writes a holder struct with a \<^verbatim>\<open>const_value()\<close> method. The model returns which one
  is called, or the thrown message.
\<close>

datatype const_form = Render_const_value | Render_const_value_holder

definition generate_const :: "string \<Rightarrow> t_type \<Rightarrow> string + const_form" where
  "generate_const name ttype =
     (if can_generate_simple_const ttype then Inr Render_const_value
      else if can_generate_const_holder ttype then Inr Render_const_value_holder
      else Inl (''cannot generate const for '' @ name))"


section \<open>Reading a value from the wire\<close>

text \<open>
  \<^verbatim>\<open>render_type_sync_read\<close> writes the statements that read one value of a type. The
  model keeps which protocol call is written (\<open>reader\<close>) and every \<^verbatim>\<open>throw\<close>; the
  container cases go through \<^verbatim>\<open>render_map_sync_read\<close>, \<^verbatim>\<open>render_set_sync_read\<close> and
  \<^verbatim>\<open>render_list_sync_read\<close>, which first ask for the Rust type of the container.
\<close>

datatype reader =
  Read_base t_base bool
  | Read_serializable string bool
  | Read_map reader reader
  | Read_set reader
  | Read_list reader

fun render_type_sync_read :: "mangler \<Rightarrow> t_type \<Rightarrow> bool \<Rightarrow> string + reader" where
  "render_type_sync_read mg (Base b binary) is_boxed =
     (if b = TYPE_VOID then Inl ''cannot read field of type TYPE_VOID from input protocol''
      else Inr (Read_base b binary))"
| "render_type_sync_read mg (Typedef prog symbolic aliased forward) is_boxed =
     render_type_sync_read mg aliased forward"
| "render_type_sync_read mg (Enum prog n) is_boxed =
     (case to_rust_type mg (Enum prog n) of
        Inl e \<Rightarrow> Inl e | Inr ty \<Rightarrow> Inr (Read_serializable ty is_boxed))"
| "render_type_sync_read mg (Struct prog n) is_boxed =
     (case to_rust_type mg (Struct prog n) of
        Inl e \<Rightarrow> Inl e | Inr ty \<Rightarrow> Inr (Read_serializable ty is_boxed))"
| "render_type_sync_read mg (Xception prog n) is_boxed =
     (case to_rust_type mg (Xception prog n) of
        Inl e \<Rightarrow> Inl e | Inr ty \<Rightarrow> Inr (Read_serializable ty is_boxed))"
| "render_type_sync_read mg (Map k v) is_boxed =
     (case to_rust_type mg (Map k v) of
        Inl e \<Rightarrow> Inl e
      | Inr ty \<Rightarrow>
          (case render_type_sync_read mg k False of
             Inl e \<Rightarrow> Inl e
           | Inr rk \<Rightarrow>
               (case render_type_sync_read mg v False of
                  Inl e \<Rightarrow> Inl e
                | Inr rv \<Rightarrow> Inr (Read_map rk rv))))"
| "render_type_sync_read mg (Set e) is_boxed =
     (case to_rust_type mg (Set e) of
        Inl err \<Rightarrow> Inl err
      | Inr ty \<Rightarrow>
          (case render_type_sync_read mg e False of
             Inl err \<Rightarrow> Inl err | Inr r \<Rightarrow> Inr (Read_set r)))"
| "render_type_sync_read mg (List e) is_boxed =
     (case to_rust_type mg (List e) of
        Inl err \<Rightarrow> Inl err
      | Inr ty \<Rightarrow>
          (case render_type_sync_read mg e False of
             Inl err \<Rightarrow> Inl err | Inr r \<Rightarrow> Inr (Read_list r)))"
| "render_type_sync_read mg (Service prog n) is_boxed =
     Inl (''cannot read unsupported type '' @ n)"


section \<open>Structs\<close>

text \<open>\<^verbatim>\<open>render_type_comment\<close>: the comment block in front of a type.\<close>

definition render_type_comment :: "string \<Rightarrow> string list" where
  "render_type_comment name = [''//'', ''// '' @ name, ''//'', '''']"

text \<open>
  The loop of \<^verbatim>\<open>render_struct_definition\<close> that decides whether \<^verbatim>\<open>Default\<close> is derived:
  it runs over the sorted members while \<^verbatim>\<open>need_default\<close> is still set, and looks at the
  declared requiredness \<^verbatim>\<open>member->get_req()\<close>.
\<close>

fun need_default_loop :: "bool \<Rightarrow> t_field list \<Rightarrow> bool" where
  "need_default_loop need_default [] = need_default"
| "need_default_loop need_default (member # members) =
     (if need_default
      then need_default_loop (if \<not> is_optional (fld_req member) then False else need_default) members
      else need_default)"

definition need_default :: "t_struct \<Rightarrow> e_struct_type \<Rightarrow> bool" where
  "need_default tstruct struct_type =
     need_default_loop (struct_type = T_REGULAR \<or> struct_type = T_EXCEPTION)
       (get_sorted_members tstruct)"

text \<open>The derive line written in front of the struct.\<close>

definition render_struct_definition_derive :: "t_struct \<Rightarrow> e_struct_type \<Rightarrow> string" where
  "render_struct_definition_derive tstruct struct_type =
     ''#[derive(Clone, Debug'' @ (if need_default tstruct struct_type then '', Default'' else '''')
       @ '', Eq, Hash, Ord, PartialEq, PartialOrd)]''"

text \<open>
  The first loop of \<^verbatim>\<open>render_struct_sync_read\<close> declares one temporary per member,
  \<^verbatim>\<open>let mut <var>: Option<<type>> = <init>;\<close>. The variable is
  \<^verbatim>\<open>struct_field_read_temp_variable(member)\<close>, the type is \<^verbatim>\<open>to_rust_type\<close> of the member's
  type, which may throw, and the initialiser is \<open>struct_read_slot_init\<close>: the value of
  \<^verbatim>\<open>opt_in_req_out_value\<close> for a member whose effective requiredness is opt-in-req-out,
  \<^verbatim>\<open>None\<close> for any other. \<open>struct_read_slot\<close> is one turn of the loop,
  \<open>render_struct_read_slots\<close> the loop.
\<close>

definition struct_field_read_temp_variable :: "t_field \<Rightarrow> string" where
  "struct_field_read_temp_variable tfield = ''f_'' @ rust_safe_field_id (fld_key tfield)"

definition struct_read_slot_init :: "t_field \<Rightarrow> e_struct_type \<Rightarrow> string + string" where
  "struct_read_slot_init member struct_type =
     (let member_req = actual_field_req member struct_type
      in if member_req = T_OPT_IN_REQ_OUT then opt_in_req_out_value (fld_type member)
         else Inr ''None'')"

record read_slot =
  slot_var :: string
  slot_type :: string
  slot_init :: string

definition struct_read_slot :: "mangler \<Rightarrow> t_field \<Rightarrow> e_struct_type \<Rightarrow> string + read_slot" where
  "struct_read_slot mg member struct_type =
     (case to_rust_type mg (fld_type member) of
        Inl e \<Rightarrow> Inl e
      | Inr rust_type \<Rightarrow>
          (case struct_read_slot_init member struct_type of
             Inl e \<Rightarrow> Inl e
           | Inr init \<Rightarrow>
               Inr \<lparr>slot_var = struct_field_read_temp_variable member,
                    slot_type = rust_type, slot_init = init\<rparr>))"

fun render_struct_read_slots ::
  "mangler \<Rightarrow> t_field list \<Rightarrow> e_struct_type \<Rightarrow> string + read_slot list" where
  "render_struct_read_slots mg [] struct_type = Inr []"
| "render_struct_read_slots mg (member # members) struct_type =
     (case struct_read_slot mg member struct_type of
        Inl e \<Rightarrow> Inl e
      | Inr slot \<Rightarrow>
          (case render_struct_read_slots mg members struct_type of
             Inl e \<Rightarrow> Inl e
           | Inr slots \<Rightarrow> Inr (slot # slots)))"

text \<open>
  \<^verbatim>\<open>render_result_struct_to_result_method\<close> writes \<^verbatim>\<open>fn ok_or(self)\<close>. What it writes is
  fixed by three things: the Rust return type (\<open>()\<close> unless a member is called
  \<^verbatim>\<open>result_value\<close>), the members that get an \<^verbatim>\<open>if self.<field>.is_some()\<close> branch, in this
  order, and the name put into the missing-result message.
\<close>

record ok_or_code =
  ok_return_type :: string
  ok_exception_fields :: "t_field list"
  ok_service_call_name :: string

fun rust_return_type :: "mangler \<Rightarrow> t_field list \<Rightarrow> string + string" where
  "rust_return_type mg [] = Inr ''()''"
| "rust_return_type mg (member # members) =
     (if fld_name member = SERVICE_RESULT_VARIABLE then to_rust_type mg (fld_type member)
      else rust_return_type mg members)"

definition render_result_struct_to_result_method :: "mangler \<Rightarrow> t_struct \<Rightarrow> string + ok_or_code" where
  "render_result_struct_to_result_method mg tstruct =
     (let service_call_name = st_name tstruct
      in case str_find service_call_name RESULT_STRUCT_SUFFIX 0 of
           None \<Rightarrow> Inl (''result struct '' @ service_call_name @ '' missing result suffix'')
         | Some index \<Rightarrow>
             (let service_call_name = str_replace service_call_name index 6 [];
                  members = get_sorted_members tstruct
              in case rust_return_type mg members of
                   Inl e \<Rightarrow> Inl e
                 | Inr ret \<Rightarrow>
                     Inr \<lparr>ok_return_type = ret,
                          ok_exception_fields =
                            filter (\<lambda>tfield. fld_name tfield \<noteq> SERVICE_RESULT_VARIABLE) members,
                          ok_service_call_name = service_call_name\<rparr>))"

text \<open>
  The member lines of a struct definition, \<^verbatim>\<open><name>: <type>,\<close> with the type wrapped in
  \<^verbatim>\<open>Option<...>\<close> for an optional member; \<^verbatim>\<open>to_rust_type\<close> may throw.
\<close>

fun render_struct_members ::
  "mangler \<Rightarrow> t_field list \<Rightarrow> e_struct_type \<Rightarrow> string + (t_field \<times> string) list" where
  "render_struct_members mg [] struct_type = Inr []"
| "render_struct_members mg (member # members) struct_type =
     (case to_rust_type mg (fld_type member) of
        Inl e \<Rightarrow> Inl e
      | Inr rust_type \<Rightarrow>
          (case render_struct_members mg members struct_type of
             Inl e \<Rightarrow> Inl e
           | Inr ms \<Rightarrow>
               Inr ((member,
                     if is_optional (actual_field_req member struct_type)
                     then ''Option<'' @ rust_type @ ''>'' else rust_type) # ms)))"

text \<open>
  The arms of the \<^verbatim>\<open>match field_id\<close> of \<^verbatim>\<open>render_struct_sync_read\<close>: the pattern
  \<^verbatim>\<open>rust_safe_field_id(key)\<close> and the read of the member's type.
\<close>

fun render_struct_read_arms :: "mangler \<Rightarrow> t_field list \<Rightarrow> string + (string \<times> reader) list" where
  "render_struct_read_arms mg [] = Inr []"
| "render_struct_read_arms mg (tfield # members) =
     (case render_type_sync_read mg (fld_type tfield) False of
        Inl e \<Rightarrow> Inl e
      | Inr r \<Rightarrow>
          (case render_struct_read_arms mg members of
             Inl e \<Rightarrow> Inl e
           | Inr arms \<Rightarrow> Inr ((rust_safe_field_id (fld_key tfield), r) # arms)))"

text \<open>
  \<^verbatim>\<open>render_struct\<close>, as far as the results below need it: the comment, the derive line
  and the members (\<^verbatim>\<open>render_struct_definition\<close>), then \<^verbatim>\<open>ok_or\<close> for a result struct and
  the read function with its slots and arms (\<^verbatim>\<open>render_struct_impl\<close>). The constructor and
  the write function throw for no struct that gets this far, and are left out.
\<close>

record struct_code =
  sc_comment :: "string list"
  sc_derive :: string
  sc_members :: "(t_field \<times> string) list"
  sc_ok_or :: "ok_or_code option"
  sc_read_slots :: "read_slot list"
  sc_read_arms :: "(string \<times> reader) list"

definition render_struct :: "mangler \<Rightarrow> string \<Rightarrow> t_struct \<Rightarrow> e_struct_type \<Rightarrow> string + struct_code" where
  "render_struct mg struct_name tstruct struct_type =
     (let comment = render_type_comment struct_name;
          derive = render_struct_definition_derive tstruct struct_type;
          members = get_sorted_members tstruct
      in case render_struct_members mg members struct_type of
           Inl e \<Rightarrow> Inl e
         | Inr ms \<Rightarrow>
             (case (if struct_type = T_RESULT
                    then map_sum id Some (render_result_struct_to_result_method mg tstruct)
                    else Inr None) of
                Inl e \<Rightarrow> Inl e
              | Inr ok \<Rightarrow>
                  (case render_struct_read_slots mg members struct_type of
                     Inl e \<Rightarrow> Inl e
                   | Inr slots \<Rightarrow>
                       (case render_struct_read_arms mg members of
                          Inl e \<Rightarrow> Inl e
                        | Inr arms \<Rightarrow>
                            Inr \<lparr>sc_comment = comment, sc_derive = derive, sc_members = ms,
                                 sc_ok_or = ok, sc_read_slots = slots, sc_read_arms = arms\<rparr>))))"


section \<open>Unions\<close>

text \<open>
  One arm of the \<^verbatim>\<open>match field_id\<close> written by \<^verbatim>\<open>render_union_sync_read\<close>:
  \<^verbatim>\<open><pattern> => { <read val>; if ret.is_none() { ret = Some(U::<Variant>(val)); }
  received_field_count += 1; }\<close>. The pattern is the text \<^verbatim>\<open>rust_safe_field_id(key)\<close>; the
  variant is the one of the member.
\<close>

record union_read_arm =
  arm_pattern :: string
  arm_reader :: reader
  arm_member :: t_field

fun render_union_read_arms :: "mangler \<Rightarrow> t_field list \<Rightarrow> string + union_read_arm list" where
  "render_union_read_arms mg [] = Inr []"
| "render_union_read_arms mg (member # members) =
     (case render_type_sync_read mg (fld_type member) False of
        Inl e \<Rightarrow> Inl e
      | Inr r \<Rightarrow>
          (case render_union_read_arms mg members of
             Inl e \<Rightarrow> Inl e
           | Inr arms \<Rightarrow>
               Inr (\<lparr>arm_pattern = rust_safe_field_id (fld_key member),
                     arm_reader = r, arm_member = member\<rparr> # arms)))"

record union_read_code =
  ur_union_name :: string
  ur_arms :: "union_read_arm list"

definition render_union_sync_read :: "mangler \<Rightarrow> string \<Rightarrow> t_struct \<Rightarrow> string + union_read_code" where
  "render_union_sync_read mg union_name tstruct =
     (case render_union_read_arms mg (get_sorted_members tstruct) of
        Inl e \<Rightarrow> Inl e
      | Inr arms \<Rightarrow> Inr \<lparr>ur_union_name = union_name, ur_arms = arms\<rparr>)"

text \<open>
  \<^verbatim>\<open>render_union_definition\<close> writes the enum: the derive line, \<^verbatim>\<open>pub enum <name> {\<close>, one
  line \<^verbatim>\<open><Variant>(<type>),\<close> per member, \<^verbatim>\<open>}\<close> and an empty line. The model gives the lines
  written to the output together with the outcome, so that what is written in front of
  a \<^verbatim>\<open>throw\<close> is kept; a line counts as written once its parts have been computed
  (the language leaves open in which order one output statement evaluates them). The
  \<^verbatim>\<open>throw\<close> for an empty member list is the first statement of the function.
  \<open>indent_one\<close> is \<^verbatim>\<open>indent()\<close> one level deep: two spaces, the default of the generator
  base class.
\<close>

definition indent_one :: string where
  "indent_one = ''  ''"

definition rust_union_field_name :: "mangler \<Rightarrow> t_field \<Rightarrow> string" where
  "rust_union_field_name mg tfield = rust_safe_name (rust_camel_case mg (fld_name tfield))"

fun render_union_variants ::
  "mangler \<Rightarrow> t_field list \<Rightarrow> string list \<times> (string + (t_field \<times> string) list)" where
  "render_union_variants mg [] = ([], Inr [])"
| "render_union_variants mg (tfield # members) =
     (case to_rust_type mg (fld_type tfield) of
        Inl e \<Rightarrow> ([], Inl e)
      | Inr ty \<Rightarrow>
          (case render_union_variants mg members of
             (written, res) \<Rightarrow>
               ((indent_one @ rust_union_field_name mg tfield @ ''('' @ ty @ ''),'') # written,
                map_sum id ((#) (tfield, ty)) res)))"

definition render_union_definition ::
  "mangler \<Rightarrow> string \<Rightarrow> t_struct \<Rightarrow> string list \<times> (string + (t_field \<times> string) list)" where
  "render_union_definition mg union_name tstruct =
     (let members = get_sorted_members tstruct
      in if members = [] then ([], Inl ''cannot generate rust enum with 0 members'')
         else (case render_union_variants mg members of
                 (written, res) \<Rightarrow>
                   (''#[derive(Clone, Debug, Eq, Hash, Ord, PartialEq, PartialOrd)]''
                      # (''pub enum '' @ union_name @ '' {'')
                      # written @ (case res of Inl e \<Rightarrow> [] | Inr vs \<Rightarrow> [''}'', '''']),
                    res)))"

text \<open>
  \<^verbatim>\<open>render_union\<close>: the comment, the enum definition and the read function
  (\<^verbatim>\<open>render_union_impl\<close>; the write function throws for no type the read function
  accepts, and is left out). \<open>ue_written\<close> holds the lines that \<^verbatim>\<open>render_type_comment\<close> and
  \<^verbatim>\<open>render_union_definition\<close> have written to the output, which is all that is written
  for the union before \<^verbatim>\<open>render_union_impl\<close> starts; \<open>ue_outcome\<close> is the thrown message or
  the generated code. When \<^verbatim>\<open>render_union_definition\<close> throws, \<^verbatim>\<open>render_union_impl\<close> is not
  reached, and the comment block stays in the output.
\<close>

record union_code =
  uc_name :: string
  uc_variants :: "(t_field \<times> string) list"
  uc_read :: union_read_code

record union_emission =
  ue_written :: "string list"
  ue_outcome :: "string + union_code"

definition render_union :: "mangler \<Rightarrow> t_struct \<Rightarrow> union_emission" where
  "render_union mg tstruct =
     (let union_name = rust_struct_name mg tstruct;
          comment = render_type_comment union_name
      in case render_union_definition mg union_name tstruct of
           (written, Inl e) \<Rightarrow> \<lparr>ue_written = comment @ written, ue_outcome = Inl e\<rparr>
         | (written, Inr variants) \<Rightarrow>
             \<lparr>ue_written = comment @ written,
              ue_outcome =
                (case render_union_sync_read mg union_name tstruct of
                   Inl e \<Rightarrow> Inl e
                 | Inr rd \<Rightarrow>
                     Inr \<lparr>uc_name = union_name, uc_variants = variants, uc_read = rd\<rparr>)\<rparr>)"

text \<open>
  \<^verbatim>\<open>generate_struct\<close>: a union goes to \<^verbatim>\<open>render_union\<close>, a struct to \<^verbatim>\<open>render_struct\<close> as a
  regular struct, and an exception is refused. What a struct has written when a
  \<^verbatim>\<open>throw\<close> ends the run is not part of the model.
\<close>

datatype generated =
  Generated_union union_emission
  | Generated_struct "string + struct_code"
  | Refused string

definition generate_struct :: "mangler \<Rightarrow> t_struct \<Rightarrow> generated" where
  "generate_struct mg tstruct =
     (if st_is_union tstruct then Generated_union (render_union mg tstruct)
      else if \<not> st_is_xception tstruct
      then Generated_struct (render_struct mg (rust_struct_name mg tstruct) tstruct T_REGULAR)
      else Refused ''cannot generate struct for exception'')"


section \<open>Services\<close>

text \<open>
  One arm of the \<^verbatim>\<open>match &*message_ident.name\<close> of the processor:
  \<^verbatim>\<open>"<name>" => { self.process_<snake name>(...) }\<close>, the pattern being the original name
  of the function the arm calls the processing of.
\<close>

record process_arm =
  pa_pattern :: string
  pa_target :: t_function

fun render_process_match_statements :: "t_service \<Rightarrow> process_arm list" where
  "render_process_match_statements (T_service name functions extends) =
     map (\<lambda>tfunc. \<lparr>pa_pattern = fn_name tfunc, pa_target = tfunc\<rparr>) functions
     @ (case extends of
          None \<Rightarrow> []
        | Some parent \<Rightarrow> render_process_match_statements parent)"


section \<open>Enums\<close>

text \<open>
  \<^verbatim>\<open>render_enum_definition\<close> writes \<^verbatim>\<open>pub struct E(pub i32);\<close>. \<^verbatim>\<open>render_enum_impl\<close> writes
  one associated constant \<^verbatim>\<open>pub const <VARIANT>: E = E(<value>);\<close> per enum value, and
  \<^verbatim>\<open>render_enum_conversion\<close> one arm \<^verbatim>\<open><value> => E::<VARIANT>\<close> per enum value in front of
  the fallback arm \<^verbatim>\<open>_ => E(i)\<close>.
\<close>

datatype rust_enum = Rust_enum int32

fun render_enum_constants :: "t_enum_value list \<Rightarrow> (string \<times> rust_enum) list option" where
  "render_enum_constants [] = Some []"
| "render_enum_constants (val # constants) =
     (case rust_enum_variant_name (ev_name val) of
        None \<Rightarrow> None
      | Some n \<Rightarrow>
          (case render_enum_constants constants of
             None \<Rightarrow> None
           | Some cs \<Rightarrow> Some ((n, Rust_enum (ev_value val)) # cs)))"

fun render_enum_from_arms :: "t_enum_value list \<Rightarrow> (int32 \<times> string) list option" where
  "render_enum_from_arms [] = Some []"
| "render_enum_from_arms (val # constants) =
     (case rust_enum_variant_name (ev_name val) of
        None \<Rightarrow> None
      | Some n \<Rightarrow>
          (case render_enum_from_arms constants of
             None \<Rightarrow> None
           | Some arms \<Rightarrow> Some ((ev_value val, n) # arms)))"

record enum_code =
  ec_constants :: "(string \<times> rust_enum) list"
  ec_from_arms :: "(int32 \<times> string) list"

definition generate_enum :: "t_enum \<Rightarrow> enum_code option" where
  "generate_enum tenum =
     (case render_enum_constants (en_constants tenum) of
        None \<Rightarrow> None
      | Some cs \<Rightarrow>
          (case render_enum_from_arms (en_constants tenum) of
             None \<Rightarrow> None
           | Some arms \<Rightarrow> Some \<lparr>ec_constants = cs, ec_from_arms = arms\<rparr>))"


section \<open>What the generated Rust does\<close>

text \<open>
  The errors of the runtime library, as far as the generated code builds them, and the
  value of a unit or non-unit \<^verbatim>\<open>Ok\<close>.
\<close>

datatype application_error_kind = MissingResult | UnknownMethod | Unknown

datatype protocol_error_kind = InvalidData

datatype 'v thrift_error =
  User_error 'v
  | Application_error application_error_kind string
  | Protocol_error protocol_error_kind string

datatype 'v rust_value = Unit | Value 'v

subsection \<open>Match arms on a field id\<close>

text \<open>
  A Rust match arm whose pattern is an integer literal is taken by that integer only.
  A pattern that is an identifier (and names no constant in scope, as here) is a
  binding: it is taken by every value. Anything else is no pattern, and the generated
  file does not compile.
\<close>

datatype pattern_kind = Literal_pattern | Binding_pattern | Malformed_pattern

definition rust_pattern_kind :: "string \<Rightarrow> pattern_kind" where
  "rust_pattern_kind pat =
     (if pat \<noteq> [] \<and> list_all is_digit pat then Literal_pattern
      else if pat \<noteq> [] \<and> \<not> is_digit (hd pat) \<and> list_all is_ident_char pat then Binding_pattern
      else Malformed_pattern)"

definition rust_pattern_matches :: "string \<Rightarrow> int \<Rightarrow> bool" where
  "rust_pattern_matches pat i =
     (case rust_pattern_kind pat of
        Literal_pattern \<Rightarrow> pat = to_string i
      | Binding_pattern \<Rightarrow> True
      | Malformed_pattern \<Rightarrow> False)"

subsection \<open>The read function of a union\<close>

text \<open>
  What arrives for a union: the fields in front of the stop marker, each with the id of
  its header and its payload. The protocol reads are taken to succeed, and to hand over
  the payload.
\<close>

datatype 'v wire_field = Wire_field (wf_id: int) (wf_payload: 'v)

text \<open>
  The generated \<^verbatim>\<open>loop\<close>: the first arm whose pattern takes the field id runs; the
  arm \<^verbatim>\<open>_\<close> skips the payload and counts.
\<close>

fun union_read_loop ::
  "union_read_arm list \<Rightarrow> (t_field \<times> 'v) option \<times> nat \<Rightarrow> 'v wire_field list
     \<Rightarrow> (t_field \<times> 'v) option \<times> nat" where
  "union_read_loop arms (ret, received_field_count) [] = (ret, received_field_count)"
| "union_read_loop arms (ret, received_field_count) (field # wire) =
     (case find (\<lambda>arm. rust_pattern_matches (arm_pattern arm) (wf_id field)) arms of
        Some arm \<Rightarrow>
          union_read_loop arms
            (if ret = None then Some (arm_member arm, wf_payload field) else ret,
             received_field_count + 1) wire
      | None \<Rightarrow> union_read_loop arms (ret, received_field_count + 1) wire)"

text \<open>The \<^verbatim>\<open>if\<close> chain behind the loop.\<close>

definition union_read_result ::
  "string \<Rightarrow> (t_field \<times> 'v) option \<times> nat \<Rightarrow> 'v thrift_error + t_field \<times> 'v" where
  "union_read_result union_name st =
     (case st of (ret, received_field_count) \<Rightarrow>
        if received_field_count = 0
        then Inl (Protocol_error InvalidData (''received empty union from remote '' @ union_name))
        else if received_field_count > 1
        then Inl (Protocol_error InvalidData
                   (''received multiple fields for union from remote '' @ union_name))
        else (case ret of
                Some r \<Rightarrow> Inr r
              | None \<Rightarrow>
                  Inl (Protocol_error InvalidData ''return value should have been constructed'')))"

text \<open>\<open>None\<close>: the generated function has an arm that is no pattern.\<close>

definition run_union_read ::
  "union_read_code \<Rightarrow> 'v wire_field list \<Rightarrow> ('v thrift_error + t_field \<times> 'v) option" where
  "run_union_read code wire =
     (if list_ex (\<lambda>arm. rust_pattern_kind (arm_pattern arm) = Malformed_pattern) (ur_arms code)
      then None
      else Some (union_read_result (ur_union_name code)
                   (union_read_loop (ur_arms code) (None, 0) wire)))"

subsection \<open>\<open>ok_or\<close> of a result struct\<close>

text \<open>
  A result struct value gives each of its fields, all optional, by the IDL name of the
  member. The generated method tests the exception fields in the order of their
  branches, then turns to the return value.
\<close>

fun first_present :: "t_field list \<Rightarrow> (string \<Rightarrow> 'v option) \<Rightarrow> 'v option" where
  "first_present [] self = None"
| "first_present (tfield # rest) self =
     (case self (fld_name tfield) of
        Some e \<Rightarrow> Some e
      | None \<Rightarrow> first_present rest self)"

definition run_ok_or :: "ok_or_code \<Rightarrow> (string \<Rightarrow> 'v option) \<Rightarrow> 'v thrift_error + 'v rust_value" where
  "run_ok_or code self =
     (case first_present (ok_exception_fields code) self of
        Some e \<Rightarrow> Inl (User_error e)
      | None \<Rightarrow>
          if ok_return_type code = ''()'' then Inr Unit
          else (case self SERVICE_RESULT_VARIABLE of
                  Some v \<Rightarrow> Inr (Value v)
                | None \<Rightarrow>
                    Inl (Application_error MissingResult
                          (''no result received for '' @ ok_service_call_name code))))"

subsection \<open>The conversions of an enum\<close>

text \<open>
  \<^verbatim>\<open>From<i32>\<close>: the first arm with the value decides, and its path \<^verbatim>\<open>E::<VARIANT>\<close> is
  the associated constant of that name; no arm leaves the fallback \<^verbatim>\<open>E(i)\<close>.
  \<^verbatim>\<open>From<E> for i32\<close> is \<^verbatim>\<open>e.0\<close>. A name that the \<^verbatim>\<open>impl\<close> defines more than once is read as
  its first definition (the Rust compiler refuses such an \<^verbatim>\<open>impl\<close>).
\<close>

definition enum_from_i32 :: "enum_code \<Rightarrow> int32 \<Rightarrow> rust_enum option" where
  "enum_from_i32 code i =
     (case find (\<lambda>arm. fst arm = i) (ec_from_arms code) of
        Some arm \<Rightarrow> map_of (ec_constants code) (snd arm)
      | None \<Rightarrow> Some (Rust_enum i))"

fun i32_from_enum :: "rust_enum \<Rightarrow> int32" where
  "i32_from_enum (Rust_enum e0) = e0"


section \<open>The spec's wording, for comparison\<close>

text \<open>
  The constant emitter according to the spec: a value holder is needed for "anything
  requiring allocation: strings, containers, structs, floats".
\<close>

fun spec_requires_allocation :: "t_type \<Rightarrow> bool" where
  "spec_requires_allocation (Base b binary) = (b = TYPE_STRING \<or> b = TYPE_DOUBLE)"
| "spec_requires_allocation (Map k v) = True"
| "spec_requires_allocation (Set e) = True"
| "spec_requires_allocation (List e) = True"
| "spec_requires_allocation (Struct prog n) = True"
| "spec_requires_allocation (Xception prog n) = True"
| "spec_requires_allocation t = False"

text \<open>
  \<open>zero_default\<close> according to the spec: "empty string/bytes, nil UUID, false, 0, 0.0,
  empty container. For struct/enum/exception this returns absent". \<open>None\<close> is absent.
\<close>

datatype zero_value =
  Empty_string | Empty_bytes | Nil_uuid | False_value | Zero | Zero_float
  | Empty_list | Empty_set | Empty_map

fun spec_zero_default :: "t_type \<Rightarrow> zero_value option" where
  "spec_zero_default (Typedef prog symbolic aliased forward) = spec_zero_default aliased"
| "spec_zero_default (Base TYPE_STRING binary) = Some (if binary then Empty_bytes else Empty_string)"
| "spec_zero_default (Base TYPE_UUID binary) = Some Nil_uuid"
| "spec_zero_default (Base TYPE_BOOL binary) = Some False_value"
| "spec_zero_default (Base TYPE_DOUBLE binary) = Some Zero_float"
| "spec_zero_default (Base b binary) = Some Zero"
| "spec_zero_default (List e) = Some Empty_list"
| "spec_zero_default (Set e) = Some Empty_set"
| "spec_zero_default (Map k v) = Some Empty_map"
| "spec_zero_default t = None"

text \<open>The Rust expressions of these values, and of an optional holding one.\<close>

fun rust_zero :: "zero_value \<Rightarrow> string" where
  \<open>rust_zero Empty_string = ''"".to_owned()''\<close>
| "rust_zero Empty_bytes = ''Vec::new()''"
| "rust_zero Nil_uuid = ''uuid::Uuid::nil()''"
| "rust_zero False_value = ''false''"
| "rust_zero Zero = ''0''"
| "rust_zero Zero_float = ''OrderedFloat::from(0.0)''"
| "rust_zero Empty_list = ''Vec::new()''"
| "rust_zero Empty_set = ''BTreeSet::new()''"
| "rust_zero Empty_map = ''BTreeMap::new()''"

fun rust_option :: "zero_value option \<Rightarrow> string" where
  "rust_option None = ''None''"
| "rust_option (Some z) = ''Some('' @ rust_zero z @ '')''"

text \<open>
  The types a field can have: the IDL grammar gives a field a data type, never
  \<open>void\<close> and never a service.
\<close>

definition is_data_type :: "t_type \<Rightarrow> bool" where
  "is_data_type t = (case get_true_type t of
      Base b binary \<Rightarrow> b \<noteq> TYPE_VOID | Service prog n \<Rightarrow> False | _ \<Rightarrow> True)"

text \<open>
  The union read according to the spec: "Per known field id, read the payload and, if
  ret is still empty, set ret to that variant; regardless, increment count. Unknown ids
  invoke skip and also increment count." A field id is known when a member has it as
  its key.
\<close>

fun spec_union_read_loop ::
  "t_field list \<Rightarrow> (t_field \<times> 'v) option \<times> nat \<Rightarrow> 'v wire_field list
     \<Rightarrow> (t_field \<times> 'v) option \<times> nat" where
  "spec_union_read_loop members (ret, count) [] = (ret, count)"
| "spec_union_read_loop members (ret, count) (field # wire) =
     (case find (\<lambda>m. sint (fld_key m) = wf_id field) members of
        Some m \<Rightarrow>
          spec_union_read_loop members
            (if ret = None then Some (m, wf_payload field) else ret, count + 1) wire
      | None \<Rightarrow> spec_union_read_loop members (ret, count + 1) wire)"

definition spec_union_read ::
  "string \<Rightarrow> t_field list \<Rightarrow> 'v wire_field list \<Rightarrow> 'v thrift_error + t_field \<times> 'v" where
  "spec_union_read union_name members wire =
     union_read_result union_name (spec_union_read_loop members (None, 0) wire)"

text \<open>
  \<open>ok_or\<close> according to the spec: "returns the return field if present, else the first
  present exception field wrapped as a user error, else (if no return declared)
  Ok(unit), else a synthetic missing-result application error carrying the original
  service-call name".
\<close>

definition spec_ok_or ::
  "t_field list \<Rightarrow> string \<Rightarrow> (string \<Rightarrow> 'v option) \<Rightarrow> 'v thrift_error + 'v rust_value" where
  "spec_ok_or members service_call_name self =
     (case self SERVICE_RESULT_VARIABLE of
        Some v \<Rightarrow> Inr (Value v)
      | None \<Rightarrow>
          (case first_present
                  (filter (\<lambda>tfield. fld_name tfield \<noteq> SERVICE_RESULT_VARIABLE) members) self of
             Some e \<Rightarrow> Inl (User_error e)
           | None \<Rightarrow>
               if \<not> list_ex (\<lambda>tfield. fld_name tfield = SERVICE_RESULT_VARIABLE) members
               then Inr Unit
               else Inl (Application_error MissingResult
                          (''no result received for '' @ service_call_name))))"

text \<open>
  The dispatch arms according to the spec: "extended services' functions (flattened), in
  declaration order per service, parents before children".
\<close>

fun spec_flattened_functions :: "t_service \<Rightarrow> t_function list" where
  "spec_flattened_functions (T_service name functions extends) =
     (case extends of
        None \<Rightarrow> []
      | Some parent \<Rightarrow> spec_flattened_functions parent) @ functions"

text \<open>A service followed by its ancestors, nearest first.\<close>

fun service_chain :: "t_service \<Rightarrow> t_service list" where
  "service_chain (T_service name functions extends) =
     T_service name functions extends
     # (case extends of None \<Rightarrow> [] | Some parent \<Rightarrow> service_chain parent)"

text \<open>
  One pass over a string from left to right that puts one underscore for every pair of
  underscores it meets.
\<close>

fun collapse_pairs :: "string \<Rightarrow> string" where
  "collapse_pairs (a # b # r) =
     (if a = CHR ''_'' \<and> b = CHR ''_'' then CHR ''_'' # collapse_pairs r
      else a # collapse_pairs (b # r))"
| "collapse_pairs s = s"

fun starts_with_underscore :: "string \<Rightarrow> bool" where
  "starts_with_underscore [] = False"
| "starts_with_underscore (c # cs) = (c = CHR ''_'')"


section \<open>Example declarations\<close>

text \<open>A mangler that adds no namespace and leaves names as they are.\<close>

definition plain_mangler :: mangler where
  "plain_mangler = \<lparr>rust_namespace = (\<lambda>prog. []), rust_camel_case = (\<lambda>name. name)\<rparr>"

text \<open>The result struct of \<^verbatim>\<open>i32 add(...)\<close> of a service \<^verbatim>\<open>Calc\<close> without exceptions.\<close>

definition add_result_struct :: t_struct where
  "add_result_struct =
     \<lparr>st_name = ''CalcAddResult'',
      st_members = [\<lparr>fld_key = 0, fld_name = ''result_value'', fld_type = Base TYPE_I32 False,
                     fld_req = T_OPTIONAL\<rparr>],
      st_is_union = False, st_is_xception = False\<rparr>"

text \<open>A field \<^verbatim>\<open>1: Counter count\<close> with \<^verbatim>\<open>typedef i64 Counter\<close> and default requiredness.\<close>

definition count_field :: t_field where
  "count_field = \<lparr>fld_key = 1, fld_name = ''count'',
     fld_type = Typedef ''shared'' ''Counter'' (Base TYPE_I64 False) False,
     fld_req = T_OPT_IN_REQ_OUT\<rparr>"

text \<open>
  \<^verbatim>\<open>struct Counter { 1: Counter count; 2: optional string label; 3: Kind kind }\<close> with an
  \<^verbatim>\<open>enum Kind\<close>.
\<close>

definition label_field :: t_field where
  "label_field = \<lparr>fld_key = 2, fld_name = ''label'', fld_type = Base TYPE_STRING False,
     fld_req = T_OPTIONAL\<rparr>"

definition kind_field :: t_field where
  "kind_field = \<lparr>fld_key = 3, fld_name = ''kind'', fld_type = Enum ''shared'' ''Kind'',
     fld_req = T_OPT_IN_REQ_OUT\<rparr>"

definition counter_struct :: t_struct where
  "counter_struct = \<lparr>st_name = ''Counter'', st_members = [count_field, label_field, kind_field],
     st_is_union = False, st_is_xception = False\<rparr>"

text \<open>\<^verbatim>\<open>union Nothing {}\<close>.\<close>

definition empty_union :: t_struct where
  "empty_union = \<lparr>st_name = ''Nothing'', st_members = [], st_is_union = True,
     st_is_xception = False\<rparr>"

text \<open>\<^verbatim>\<open>union U { -1: i32 a; 2: i32 b }\<close>, and the read function generated for it.\<close>

definition field_a :: t_field where
  "field_a = \<lparr>fld_key = - 1, fld_name = ''a'', fld_type = Base TYPE_I32 False,
     fld_req = T_OPT_IN_REQ_OUT\<rparr>"

definition field_b :: t_field where
  "field_b = \<lparr>fld_key = 2, fld_name = ''b'', fld_type = Base TYPE_I32 False,
     fld_req = T_OPT_IN_REQ_OUT\<rparr>"

definition neg_union :: t_struct where
  "neg_union = \<lparr>st_name = ''U'', st_members = [field_a, field_b], st_is_union = True,
     st_is_xception = False\<rparr>"

definition neg_union_read :: union_read_code where
  "neg_union_read =
     \<lparr>ur_union_name = ''U'',
      ur_arms = [\<lparr>arm_pattern = ''neg1'', arm_reader = Read_base TYPE_I32 False, arm_member = field_a\<rparr>,
                 \<lparr>arm_pattern = ''2'', arm_reader = Read_base TYPE_I32 False, arm_member = field_b\<rparr>]\<rparr>"

text \<open>
  The result struct of \<^verbatim>\<open>i32 add(...) throws (1: Overflow o)\<close> of a service \<^verbatim>\<open>Calc\<close>, its
  \<^verbatim>\<open>ok_or\<close>, and two values of the struct.
\<close>

definition result_value_field :: t_field where
  "result_value_field = \<lparr>fld_key = 0, fld_name = ''result_value'', fld_type = Base TYPE_I32 False,
     fld_req = T_OPTIONAL\<rparr>"

definition overflow_field :: t_field where
  "overflow_field = \<lparr>fld_key = 1, fld_name = ''o'', fld_type = Xception ''calc'' ''Overflow'',
     fld_req = T_OPTIONAL\<rparr>"

definition calc_add_result :: t_struct where
  "calc_add_result = \<lparr>st_name = ''CalcAddResult'',
     st_members = [result_value_field, overflow_field],
     st_is_union = False, st_is_xception = False\<rparr>"

definition calc_add_ok_or :: ok_or_code where
  "calc_add_ok_or = \<lparr>ok_return_type = ''i32'', ok_exception_fields = [overflow_field],
     ok_service_call_name = ''CalcAdd''\<rparr>"

definition both_present :: "string \<Rightarrow> string option" where
  "both_present = [''result_value'' \<mapsto> ''7'', ''o'' \<mapsto> ''overflow'']"

definition only_result_present :: "string \<Rightarrow> string option" where
  "only_result_present = [''result_value'' \<mapsto> ''7'']"

text \<open>\<^verbatim>\<open>service Base { void ping() }\<close> and \<^verbatim>\<open>service Calc extends Base { void add() }\<close>.\<close>

definition no_args :: t_struct where
  "no_args = \<lparr>st_name = ''args'', st_members = [], st_is_union = False, st_is_xception = False\<rparr>"

definition simple_function :: "string \<Rightarrow> t_function" where
  "simple_function name = \<lparr>fn_name = name, fn_returntype = Base TYPE_VOID False,
     fn_arglist = no_args, fn_xceptions = no_args, fn_oneway = False\<rparr>"

definition base_service :: t_service where
  "base_service = T_service ''Base'' [simple_function ''ping''] None"

definition calc_service :: t_service where
  "calc_service = T_service ''Calc'' [simple_function ''add''] (Some base_service)"

text \<open>\<^verbatim>\<open>enum Numbers { ONE = 1, Two = 2 }\<close> and the code generated for it.\<close>

definition example_enum :: t_enum where
  "example_enum = \<lparr>en_name = ''Numbers'',
     en_constants = [\<lparr>ev_name = ''ONE'', ev_value = 1\<rparr>, \<lparr>ev_name = ''Two'', ev_value = 2\<rparr>]\<rparr>"

definition example_enum_code :: enum_code where
  "example_enum_code = \<lparr>ec_constants = [(''ONE'', Rust_enum 1), (''TWO'', Rust_enum 2)],
     ec_from_arms = [(1, ''ONE''), (2, ''TWO'')]\<rparr>"

text \<open>
  \<^verbatim>\<open>enum Level { LOW = 0, Low = 1 }\<close> and the code generated for it: both names are written
  as \<^verbatim>\<open>LOW\<close>.
\<close>

definition clash_enum :: t_enum where
  "clash_enum = \<lparr>en_name = ''Level'',
     en_constants = [\<lparr>ev_name = ''LOW'', ev_value = 0\<rparr>, \<lparr>ev_name = ''Low'', ev_value = 1\<rparr>]\<rparr>"

definition clash_enum_code :: enum_code where
  "clash_enum_code = \<lparr>ec_constants = [(''LOW'', Rust_enum 0), (''LOW'', Rust_enum 1)],
     ec_from_arms = [(0, ''LOW''), (1, ''LOW'')]\<rparr>"


section \<open>Results\<close>

subsection \<open>Decimal rendering\<close>

lemma dec_nat_2147483648: "dec_nat 2147483648 = ''2147483648''"
  by (simp add: dec_nat.simps digit_char_def)

lemma digit_char_is_digit: "d < 10 \<Longrightarrow> is_digit (digit_char d)"
  unfolding digit_char_def is_digit_def by (rule nth_mem) simp

lemma digit_char_inj: "a < 10 \<Longrightarrow> b < 10 \<Longrightarrow> digit_char a = digit_char b \<Longrightarrow> a = b"
proof -
  assume a: "a < 10" and b: "b < 10" and e: "digit_char a = digit_char b"
  have d: "distinct ''0123456789''" by simp
  have "length ''0123456789'' = 10" by simp
  with a b e d show "a = b"
    unfolding digit_char_def by (metis nth_eq_iff_index_eq)
qed

lemma dec_nat_not_Nil: "dec_nat n \<noteq> []"
  by (subst dec_nat.simps) simp

lemma dec_nat_small: "n < 10 \<Longrightarrow> dec_nat n = [digit_char n]"
  by (subst dec_nat.simps) simp

lemma dec_nat_large: "\<not> n < 10 \<Longrightarrow> dec_nat n = dec_nat (n div 10) @ [digit_char (n mod 10)]"
  by (subst dec_nat.simps) simp

lemma dec_nat_digits: "list_all is_digit (dec_nat n)"
proof (induction n rule: dec_nat.induct)
  case (1 n)
  show ?case
  proof (cases "n < 10")
    case True
    then show ?thesis by (simp add: dec_nat_small digit_char_is_digit)
  next
    case False
    with 1 show ?thesis by (simp add: dec_nat_large digit_char_is_digit)
  qed
qed

lemma minus_not_digit: "\<not> is_digit CHR ''-''"
  by (simp add: is_digit_def)

lemma dec_nat_length: "\<not> n < 10 \<Longrightarrow> 2 \<le> length (dec_nat n)"
proof -
  assume n: "\<not> n < 10"
  have "1 \<le> length (dec_nat (n div 10))"
    using dec_nat_not_Nil [of "n div 10"] by (cases "dec_nat (n div 10)") simp_all
  with n show ?thesis by (simp add: dec_nat_large)
qed

lemma dec_nat_inj: "dec_nat m = dec_nat n \<Longrightarrow> m = n"
proof (induction m arbitrary: n rule: dec_nat.induct)
  case (1 m)
  show ?case
  proof (cases "m < 10")
    case m: True
    show ?thesis
    proof (cases "n < 10")
      case True
      with m "1.prems" show ?thesis by (simp add: dec_nat_small digit_char_inj)
    next
      case False
      then have "2 \<le> length (dec_nat n)" by (rule dec_nat_length)
      moreover from m "1.prems" have "dec_nat n = [digit_char m]" by (simp add: dec_nat_small)
      then have "length (dec_nat n) = 1" by simp
      ultimately show ?thesis by simp
    qed
  next
    case m: False
    show ?thesis
    proof (cases "n < 10")
      case True
      from m have "2 \<le> length (dec_nat m)" by (rule dec_nat_length)
      moreover from True "1.prems" have "dec_nat m = [digit_char n]" by (simp add: dec_nat_small)
      then have "length (dec_nat m) = 1" by simp
      ultimately show ?thesis by simp
    next
      case False
      with m "1.prems" have q: "dec_nat (m div 10) = dec_nat (n div 10)"
        and r: "digit_char (m mod 10) = digit_char (n mod 10)"
        by (simp_all add: dec_nat_large)
      from "1.IH" [OF m q] have "m div 10 = n div 10" .
      moreover from r have "m mod 10 = n mod 10" by (simp add: digit_char_inj)
      ultimately show ?thesis by (metis div_mult_mod_eq)
    qed
  qed
qed

subsection \<open>Field ids\<close>

lemma rust_safe_field_id_nonneg:
  "0 \<le> sint k \<Longrightarrow> rust_safe_field_id k = dec_nat (nat (sint k))"
  by (simp add: rust_safe_field_id_def abs_i32_def to_string_def word_sless_alt word_sle_eq)

lemma rust_safe_field_id_neg1: "rust_safe_field_id (- 1) = ''neg1''"
  by (simp add: rust_safe_field_id_def abs_i32_def to_string_def dec_nat.simps digit_char_def
      word_sless_alt word_sle_eq)

lemma rust_safe_field_id_2: "rust_safe_field_id 2 = ''2''"
  by (simp add: rust_safe_field_id_def abs_i32_def to_string_def dec_nat.simps digit_char_def
      word_sless_alt word_sle_eq)

text \<open>
  Apart from the most negative id the mangling is as intended: the decimal digits of a
  non-negative id, \<open>neg\<close> and the decimal absolute value of a negative one, always an
  identifier tail. Distinct ids get distinct manglings, the most negative id included.
\<close>

lemma sint_minus_i32:
  fixes k :: int32
  assumes "sint k \<noteq> - 2147483648"
  shows "sint (- k) = - sint k"
proof -
  have "- (2 ^ 31) \<le> sint k" "sint k < 2 ^ 31"
    using sint_ge [of k] sint_lt [of k] by simp_all
  with assms have "- (2 ^ 31) \<le> - sint k" "- sint k < 2 ^ 31" by simp_all
  then have "signed_take_bit 31 (- sint k) = - sint k"
    by (rule signed_take_bit_int_eq_self)
  then show ?thesis by (simp add: sint_word_ariths)
qed

lemma to_string_inj: "to_string i = to_string j \<Longrightarrow> i = j"
proof -
  assume e: "to_string i = to_string j"
  have nd: "dec_nat n \<noteq> CHR ''-'' # s" for n s
    using dec_nat_digits [of n] minus_not_digit by auto
  show ?thesis
  proof (cases "i < 0")
    case i: True
    show ?thesis
    proof (cases "j < 0")
      case True
      with i e have "nat (- i) = nat (- j)" by (auto simp: to_string_def dest: dec_nat_inj)
      with i True show ?thesis by simp
    next
      case False
      with i e nd show ?thesis by (simp add: to_string_def) metis
    qed
  next
    case i: False
    show ?thesis
    proof (cases "j < 0")
      case True
      with i e nd show ?thesis by (simp add: to_string_def)
    next
      case False
      with i e have "nat i = nat j" by (auto simp: to_string_def dest: dec_nat_inj)
      with i False show ?thesis by simp
    qed
  qed
qed

lemma rust_safe_field_id_negative:
  "sint k < 0 \<Longrightarrow> rust_safe_field_id k = ''neg'' @ to_string (sint (- k))"
  by (simp add: rust_safe_field_id_def abs_i32_def word_sless_alt word_sle_eq)

lemma rust_safe_field_id_neg_abs:
  "sint k < 0 \<Longrightarrow> sint k \<noteq> - 2147483648 \<Longrightarrow>
     rust_safe_field_id k = ''neg'' @ dec_nat (nat (- sint k))"
  by (simp add: rust_safe_field_id_negative sint_minus_i32 to_string_def)

lemma is_ident_char_digits: "list_all is_digit s \<Longrightarrow> list_all is_ident_char s"
  by (induction s) (auto simp: is_ident_char_def)

lemma rust_safe_field_id_valid:
  "sint k \<noteq> - 2147483648 \<Longrightarrow> valid_identifier_tail (rust_safe_field_id k)"
proof (cases "sint k < 0")
  case True
  assume "sint k \<noteq> - 2147483648"
  with True show ?thesis
    using is_ident_char_digits [OF dec_nat_digits, of "nat (- sint k)"]
    by (simp add: rust_safe_field_id_neg_abs valid_identifier_tail_def)
       (simp add: is_ident_char_def is_lower_def)
next
  case False
  then show ?thesis
    using is_ident_char_digits [OF dec_nat_digits, of "nat (sint k)"]
    by (simp add: rust_safe_field_id_nonneg valid_identifier_tail_def dec_nat_not_Nil)
qed

lemma rust_safe_field_id_inj:
  "rust_safe_field_id a = rust_safe_field_id b \<Longrightarrow> a = b"
proof -
  assume e: "rust_safe_field_id a = rust_safe_field_id b"
  have nn: "dec_nat n \<noteq> CHR ''n'' # s" for n s
    using dec_nat_digits [of n] by (auto simp: is_digit_def)
  show ?thesis
  proof (cases "sint a < 0")
    case a: True
    show ?thesis
    proof (cases "sint b < 0")
      case True
      with a e have "sint (- a) = sint (- b)"
        by (simp add: rust_safe_field_id_negative to_string_inj)
      then have "- a = - b" by (rule signed_word_eqI)
      then show ?thesis by simp
    next
      case False
      with a e nn show ?thesis
        by (simp add: rust_safe_field_id_negative rust_safe_field_id_nonneg) metis
    qed
  next
    case a: False
    show ?thesis
    proof (cases "sint b < 0")
      case True
      with a e nn show ?thesis
        by (simp add: rust_safe_field_id_negative rust_safe_field_id_nonneg)
    next
      case False
      with a e have "nat (sint a) = nat (sint b)"
        by (auto simp: rust_safe_field_id_nonneg dest: dec_nat_inj)
      with a False have "sint a = sint b" by simp
      then show ?thesis by (rule signed_word_eqI)
    qed
  qed
qed

text \<open>
  C8 (field id mangling). The claim: for every 32-bit id the mangled id is the decimal
  digits for \<open>id \<ge> 0\<close>, and \<open>neg\<close> followed by the decimal absolute value for \<open>id < 0\<close>, and
  is always a valid identifier tail. At the most negative id the absolute value is not
  representable: \<^verbatim>\<open>abs\<close> gives the id back, \<^verbatim>\<open>to_string\<close> prints its minus sign, and the
  result is \<open>neg-2147483648\<close>, which is neither \<open>neg2147483648\<close> nor an identifier tail.
\<close>

theorem C8_safe_field_id_int32_min:
  "rust_safe_field_id (- 2147483648) = ''neg-2147483648''
   \<and> rust_safe_field_id (- 2147483648) \<noteq> ''neg'' @ dec_nat 2147483648
   \<and> \<not> valid_identifier_tail (rust_safe_field_id (- 2147483648))"
  by (simp add: rust_safe_field_id_def abs_i32_def to_string_def dec_nat_2147483648
      word_sless_alt word_sle_eq valid_identifier_tail_def is_ident_char_def
      is_digit_def is_lower_def is_upper_def)

subsection \<open>Typedef resolution\<close>

lemma get_true_type_idem: "get_true_type (get_true_type t) = get_true_type t"
  by (induction t) auto

lemma get_true_type_not_typedef: "get_true_type t \<noteq> Typedef p s a f"
  by (induction t) auto

subsection \<open>Constants\<close>

text \<open>
  C3 as stated fails: the spec lists strings among the types that need a value holder,
  the generator writes a string constant inline (\<^verbatim>\<open>pub const NAME: &str = "..."\<close>).
\<close>

theorem C3_string_const_is_inline:
  "spec_requires_allocation (Base TYPE_STRING False)
   \<and> generate_const ''GREETING'' (Base TYPE_STRING False) = Inr Render_const_value"
  by (simp add: generate_const_def can_generate_simple_const_def)

text \<open>
  C3, amended: a constant is written inline exactly when its type, typedefs resolved,
  is a base type other than \<open>double\<close> (so also a string, a binary or a UUID); a
  \<open>double\<close>, an enum, a struct, a union, an exception and a container get the value
  holder; a service type is refused.
\<close>

theorem C3_const_form:
  "generate_const name ttype =
     (case get_true_type ttype of
        Base b binary \<Rightarrow>
          if b = TYPE_DOUBLE then Inr Render_const_value_holder else Inr Render_const_value
      | Service prog n \<Rightarrow> Inl (''cannot generate const for '' @ name)
      | _ \<Rightarrow> Inr Render_const_value_holder)"
  by (cases "get_true_type ttype")
     (simp_all add: generate_const_def can_generate_simple_const_def
        can_generate_const_holder_def get_true_type_idem get_true_type_not_typedef)

subsection \<open>The Default derivation\<close>

lemma need_default_loop_iff:
  "need_default_loop nd ms \<longleftrightarrow> (nd \<and> list_all (\<lambda>m. is_optional (fld_req m)) ms)"
  by (induction ms arbitrary: nd) auto

lemma list_all_sort_key: "list_all P (sort_key k xs) = list_all P xs"
  by (simp add: list_all_iff)

text \<open>
  C4 as stated fails: every field of a result struct is optional, and the derive line of
  a result struct has no \<open>Default\<close>.
\<close>

theorem C4_result_struct_no_default:
  "list_all (\<lambda>m. is_optional (actual_field_req m T_RESULT)) (get_sorted_members add_result_struct)
   \<and> \<not> need_default add_result_struct T_RESULT
   \<and> render_struct_definition_derive add_result_struct T_RESULT
       = ''#[derive(Clone, Debug, Eq, Hash, Ord, PartialEq, PartialOrd)]''"
  by (simp add: add_result_struct_def get_sorted_members_def need_default_def
      render_struct_definition_derive_def is_optional_def actual_field_req_def)

text \<open>
  C4, amended: \<open>Default\<close> is derived exactly for a struct of the regular or the
  exception flavour all of whose fields are declared optional or opt-in-req-out; it is
  never derived for the args and result flavours.
\<close>

theorem C4_default_iff:
  "(need_default tstruct struct_type \<longleftrightarrow>
      (struct_type = T_REGULAR \<or> struct_type = T_EXCEPTION)
      \<and> list_all (\<lambda>m. is_optional (fld_req m)) (st_members tstruct))
   \<and> render_struct_definition_derive tstruct struct_type =
      (if (struct_type = T_REGULAR \<or> struct_type = T_EXCEPTION)
          \<and> list_all (\<lambda>m. is_optional (fld_req m)) (st_members tstruct)
       then ''#[derive(Clone, Debug, Default, Eq, Hash, Ord, PartialEq, PartialOrd)]''
       else ''#[derive(Clone, Debug, Eq, Hash, Ord, PartialEq, PartialOrd)]'')"
  by (simp add: need_default_def render_struct_definition_derive_def need_default_loop_iff
      get_sorted_members_def list_all_sort_key)

theorem C4_default_iff_witness:
  "\<not> need_default add_result_struct T_RESULT
   \<and> need_default add_result_struct T_REGULAR
   \<and> render_struct_definition_derive add_result_struct T_EXCEPTION
       = ''#[derive(Clone, Debug, Default, Eq, Hash, Ord, PartialEq, PartialOrd)]''"
  using C4_default_iff [of add_result_struct T_RESULT]
    C4_default_iff [of add_result_struct T_REGULAR]
    C4_default_iff [of add_result_struct T_EXCEPTION]
  by (simp add: add_result_struct_def is_optional_def)

subsection \<open>Read slots of a struct\<close>

lemma spec_zero_default_true_type:
  "spec_zero_default (get_true_type t) = spec_zero_default t"
  by (induction t) auto

lemma opt_in_req_out_value_data:
  "is_data_type t \<Longrightarrow> opt_in_req_out_value t = Inr (rust_option (spec_zero_default t))"
proof -
  assume d: "is_data_type t"
  have "opt_in_req_out_value t = Inr (rust_option (spec_zero_default (get_true_type t)))"
  proof (cases "get_true_type t")
    case (Base b binary)
    with d show ?thesis
      by (cases b) (simp_all add: opt_in_req_out_value_def is_data_type_def)
  next
    case (Typedef p s a f)
    then show ?thesis by (simp add: get_true_type_not_typedef)
  qed (use d in \<open>simp_all add: opt_in_req_out_value_def is_data_type_def\<close>)
  then show ?thesis by (simp add: spec_zero_default_true_type)
qed

lemma opt_in_req_out_value_Inr:
  assumes "opt_in_req_out_value t = Inr init"
  shows "init = rust_option (spec_zero_default t)"
proof -
  have "is_data_type t"
  proof (cases "get_true_type t")
    case (Base b binary)
    with assms show ?thesis
      by (cases b) (simp_all add: opt_in_req_out_value_def is_data_type_def)
  qed (use assms in \<open>simp_all add: opt_in_req_out_value_def is_data_type_def\<close>)
  with assms show ?thesis by (simp add: opt_in_req_out_value_data)
qed

lemma struct_read_slot_init_Inr:
  assumes "struct_read_slot_init member struct_type = Inr init"
  shows "init = rust_option (if actual_field_req member struct_type = T_OPT_IN_REQ_OUT
                             then spec_zero_default (fld_type member) else None)"
proof (cases "actual_field_req member struct_type = T_OPT_IN_REQ_OUT")
  case True
  with assms have "opt_in_req_out_value (fld_type member) = Inr init"
    by (simp add: struct_read_slot_init_def)
  with True show ?thesis by (simp add: opt_in_req_out_value_Inr)
next
  case False
  with assms show ?thesis by (auto simp: struct_read_slot_init_def)
qed

lemma struct_read_slot_Inr:
  assumes "struct_read_slot mg member struct_type = Inr slot"
  shows "slot_var slot = struct_field_read_temp_variable member"
    and "to_rust_type mg (fld_type member) = Inr (slot_type slot)"
    and "slot_init slot
           = rust_option (if actual_field_req member struct_type = T_OPT_IN_REQ_OUT
                          then spec_zero_default (fld_type member) else None)"
proof -
  from assms obtain rust_type init where
    t: "to_rust_type mg (fld_type member) = Inr rust_type"
    and i: "struct_read_slot_init member struct_type = Inr init"
    and s: "slot = \<lparr>slot_var = struct_field_read_temp_variable member,
                    slot_type = rust_type, slot_init = init\<rparr>"
    by (auto simp: struct_read_slot_def split: sum.splits)
  from s show "slot_var slot = struct_field_read_temp_variable member" by simp
  from s t show "to_rust_type mg (fld_type member) = Inr (slot_type slot)" by simp
  from s struct_read_slot_init_Inr [OF i]
  show "slot_init slot
          = rust_option (if actual_field_req member struct_type = T_OPT_IN_REQ_OUT
                         then spec_zero_default (fld_type member) else None)"
    by simp
qed

lemma render_struct_read_slots_Inr:
  assumes "render_struct_read_slots mg members struct_type = Inr slots"
  shows "map slot_var slots = map struct_field_read_temp_variable members
    \<and> map (\<lambda>slot. Inr (slot_type slot)) slots = map (\<lambda>member. to_rust_type mg (fld_type member)) members
    \<and> map slot_init slots
        = map (\<lambda>member. rust_option (if actual_field_req member struct_type = T_OPT_IN_REQ_OUT
                                       then spec_zero_default (fld_type member) else None))
            members"
  using assms
proof (induction members arbitrary: slots)
  case Nil
  then show ?case by simp
next
  case (Cons member members)
  from Cons.prems obtain slot rest where
    a: "struct_read_slot mg member struct_type = Inr slot"
    and b: "render_struct_read_slots mg members struct_type = Inr rest"
    and c: "slots = slot # rest"
    by (auto split: sum.splits)
  from Cons.IH [OF b] struct_read_slot_Inr [OF a] c show ?case by simp
qed

text \<open>
  The slots are written for every member list whose types are data types that have a
  Rust type.
\<close>

lemma render_struct_read_slots_returns:
  assumes "list_all (\<lambda>member. is_data_type (fld_type member)
             \<and> (\<exists>rust_type. to_rust_type mg (fld_type member) = Inr rust_type)) members"
  shows "\<exists>slots. render_struct_read_slots mg members struct_type = Inr slots"
  using assms
proof (induction members)
  case Nil
  show ?case by simp
next
  case (Cons member members)
  then obtain rest rust_type where
    "render_struct_read_slots mg members struct_type = Inr rest"
    "to_rust_type mg (fld_type member) = Inr rust_type"
    "is_data_type (fld_type member)"
    by auto
  then show ?case
    by (simp add: struct_read_slot_def struct_read_slot_init_def opt_in_req_out_value_data)
qed

lemma map_Inr_eq: "map (\<lambda>x. Inr (f x)) xs = map Inr ys \<Longrightarrow> map f xs = ys"
  by (induction xs arbitrary: ys) (auto simp: Cons_eq_map_conv)

lemma counter_struct_sorted:
  "get_sorted_members counter_struct = [count_field, label_field, kind_field]"
  by (simp add: get_sorted_members_def counter_struct_def count_field_def label_field_def
      kind_field_def)

lemma counter_struct_rendered:
  "struct_type \<noteq> T_RESULT \<Longrightarrow>
     \<exists>code. render_struct plain_mangler struct_name counter_struct struct_type = Inr code"
  by (simp add: render_struct_def counter_struct_sorted Let_def)
    (simp add: count_field_def label_field_def kind_field_def plain_mangler_def
      struct_read_slot_def struct_read_slot_init_def opt_in_req_out_value_def
      actual_field_req_def)

text \<open>
  C5: in the generated read function of a struct, the slots are declared member by
  member in sorted order under the names \<^verbatim>\<open>f_<id>\<close>. The slot of a member whose effective
  requiredness is opt-in-req-out starts as the zero default of its type wrapped as
  present (the empty string or byte vector, the nil UUID, \<open>false\<close>, \<open>0\<close>, \<open>0.0\<close>, the empty
  container), and as \<open>None\<close> for an enum, a struct or an exception; the slot of every other
  member starts as \<open>None\<close>. Typedefs are resolved first, and in an args struct every
  member counts as required.
\<close>

theorem C5_read_slots:
  assumes "render_struct mg struct_name tstruct struct_type = Inr code"
  shows "map slot_var (sc_read_slots code)
           = map struct_field_read_temp_variable (get_sorted_members tstruct)
    \<and> map (\<lambda>slot. Inr (slot_type slot)) (sc_read_slots code)
        = map (\<lambda>member. to_rust_type mg (fld_type member)) (get_sorted_members tstruct)
    \<and> map slot_init (sc_read_slots code)
        = map (\<lambda>member. rust_option (if actual_field_req member struct_type = T_OPT_IN_REQ_OUT
                                       then spec_zero_default (fld_type member) else None))
            (get_sorted_members tstruct)"
proof -
  from assms obtain slots where
    "render_struct_read_slots mg (get_sorted_members tstruct) struct_type = Inr slots"
    "sc_read_slots code = slots"
    by (auto simp: render_struct_def Let_def split: sum.splits)
  then show ?thesis using render_struct_read_slots_Inr by simp
qed

theorem C5_read_slots_witness:
  "(\<exists>code. render_struct plain_mangler ''Counter'' counter_struct T_REGULAR = Inr code
      \<and> map slot_var (sc_read_slots code) = [''f_1'', ''f_2'', ''f_3'']
      \<and> map slot_type (sc_read_slots code) = [''Counter'', ''String'', ''Kind'']
      \<and> map slot_init (sc_read_slots code) = [''Some(0)'', ''None'', ''None''])
   \<and> (\<exists>code. render_struct plain_mangler ''CounterArgs'' counter_struct T_ARGS = Inr code
      \<and> map slot_init (sc_read_slots code) = [''None'', ''None'', ''None''])"
proof -
  obtain regular where
    r: "render_struct plain_mangler ''Counter'' counter_struct T_REGULAR = Inr regular"
    using counter_struct_rendered [of T_REGULAR "''Counter''"] by auto
  obtain args where
    a: "render_struct plain_mangler ''CounterArgs'' counter_struct T_ARGS = Inr args"
    using counter_struct_rendered [of T_ARGS "''CounterArgs''"] by auto
  have v: "map struct_field_read_temp_variable [count_field, label_field, kind_field]
             = [''f_1'', ''f_2'', ''f_3'']"
    by (simp add: struct_field_read_temp_variable_def count_field_def label_field_def
        kind_field_def rust_safe_field_id_def abs_i32_def to_string_def dec_nat.simps
        digit_char_def word_sless_alt word_sle_eq)
  have t: "map (\<lambda>member. to_rust_type plain_mangler (fld_type member))
               [count_field, label_field, kind_field]
             = map Inr [''Counter'', ''String'', ''Kind'']"
    by (simp add: count_field_def label_field_def kind_field_def plain_mangler_def)
  have i: "map (\<lambda>member. rust_option (if actual_field_req member T_REGULAR = T_OPT_IN_REQ_OUT
                                         then spec_zero_default (fld_type member) else None))
               [count_field, label_field, kind_field]
             = [''Some(0)'', ''None'', ''None'']"
    by (simp add: count_field_def label_field_def kind_field_def actual_field_req_def)
  have n: "map (\<lambda>member. rust_option (if actual_field_req member T_ARGS = T_OPT_IN_REQ_OUT
                                         then spec_zero_default (fld_type member) else None))
               [count_field, label_field, kind_field]
             = [''None'', ''None'', ''None'']"
    by (simp add: actual_field_req_def)
  note regular = C5_read_slots [OF r, unfolded counter_struct_sorted v t i]
  note args = C5_read_slots [OF a, unfolded counter_struct_sorted n]
  note sv = regular [THEN conjunct1]
  note st = regular [THEN conjunct2, THEN conjunct1, THEN map_Inr_eq]
  note si = regular [THEN conjunct2, THEN conjunct2]
  note ai = args [THEN conjunct2, THEN conjunct2]
  have "render_struct plain_mangler ''Counter'' counter_struct T_REGULAR = Inr regular
      \<and> map slot_var (sc_read_slots regular) = [''f_1'', ''f_2'', ''f_3'']
      \<and> map slot_type (sc_read_slots regular) = [''Counter'', ''String'', ''Kind'']
      \<and> map slot_init (sc_read_slots regular) = [''Some(0)'', ''None'', ''None'']"
    (is "?R regular")
    by (intro conjI r sv st si)
  then have "\<exists>code. ?R code" by (rule exI [of ?R regular])
  moreover
  have "render_struct plain_mangler ''CounterArgs'' counter_struct T_ARGS = Inr args
      \<and> map slot_init (sc_read_slots args) = [''None'', ''None'', ''None'']"
    (is "?A args")
    by (intro conjI a ai)
  then have "\<exists>code. ?A code" by (rule exI [of ?A args])
  ultimately show ?thesis by (rule conjI)
qed

subsection \<open>Unions\<close>

lemma get_sorted_members_Nil: "get_sorted_members s = [] \<longleftrightarrow> st_members s = []"
proof -
  have "length (get_sorted_members s) = length (st_members s)"
    by (simp add: get_sorted_members_def)
  then show ?thesis by (metis length_0_conv)
qed

text \<open>
  C7 as stated fails: for \<^verbatim>\<open>union Nothing {}\<close> the run is aborted with the message "cannot
  generate rust enum with 0 members", but by then the comment block of the union has
  been written to the output; by the claim nothing is written for the union.
\<close>

theorem C7_comment_written_before_throw:
  "generate_struct plain_mangler empty_union
     = Generated_union \<lparr>ue_written = [''//'', ''// Nothing'', ''//'', ''''],
         ue_outcome = Inl ''cannot generate rust enum with 0 members''\<rparr>
   \<and> ue_written (render_union plain_mangler empty_union) \<noteq> []"
  by (simp add: generate_struct_def render_union_def render_union_definition_def
      get_sorted_members_Nil render_type_comment_def rust_struct_name_def rust_safe_name_def
      is_reserved_def RUST_RESERVED_WORDS_def plain_mangler_def empty_union_def Let_def)

text \<open>
  C7, amended: a union without fields is refused. \<^verbatim>\<open>generate_struct\<close> hands a union to
  \<^verbatim>\<open>render_union\<close>, which writes the comment block and then calls
  \<^verbatim>\<open>render_union_definition\<close>; that throws "cannot generate rust enum with 0 members" as
  its first step when the member list is empty. The four lines of the comment block
  naming the union are all that is written for it: no enum definition and no read or
  write function.
\<close>

theorem C7_zero_field_union_rejected:
  "st_is_union tstruct \<Longrightarrow> st_members tstruct = [] \<Longrightarrow>
     generate_struct mg tstruct
       = Generated_union \<lparr>ue_written = render_type_comment (rust_struct_name mg tstruct),
           ue_outcome = Inl ''cannot generate rust enum with 0 members''\<rparr>"
  by (simp add: generate_struct_def render_union_def render_union_definition_def
      get_sorted_members_Nil Let_def)

theorem C7_zero_field_union_rejected_witness:
  "generate_struct plain_mangler empty_union
     = Generated_union \<lparr>ue_written = render_type_comment ''Nothing'',
         ue_outcome = Inl ''cannot generate rust enum with 0 members''\<rparr>"
  using C7_zero_field_union_rejected [of empty_union plain_mangler]
  by (simp add: empty_union_def rust_struct_name_def rust_safe_name_def is_reserved_def
      RUST_RESERVED_WORDS_def plain_mangler_def)

text \<open>
  For a union whose field ids are all non-negative the arms are integer literals, and
  the generated read function is the algorithm of the spec.
\<close>

lemma rust_pattern_kind_dec_nat: "rust_pattern_kind (dec_nat n) = Literal_pattern"
  by (simp add: rust_pattern_kind_def dec_nat_not_Nil dec_nat_digits)

lemma rust_pattern_matches_dec_nat:
  "rust_pattern_matches (dec_nat n) i \<longleftrightarrow> i = int n"
proof (cases "i < 0")
  case True
  have "list_all is_digit (dec_nat n)" by (rule dec_nat_digits)
  then have "dec_nat n \<noteq> CHR ''-'' # s" for s
    using minus_not_digit by auto
  with True show ?thesis
    by (simp add: rust_pattern_matches_def rust_pattern_kind_dec_nat to_string_def)
next
  case False
  then show ?thesis
    using dec_nat_inj [of n "nat i"]
    by (auto simp: rust_pattern_matches_def rust_pattern_kind_dec_nat to_string_def)
qed

lemma rust_pattern_matches_nonneg_key:
  "0 \<le> sint k \<Longrightarrow> rust_pattern_matches (rust_safe_field_id k) i \<longleftrightarrow> sint k = i"
  by (auto simp: rust_safe_field_id_nonneg rust_pattern_matches_dec_nat)

lemma render_union_read_arms_shape:
  "render_union_read_arms mg members = Inr arms \<Longrightarrow>
     map arm_member arms = members
     \<and> map arm_pattern arms = map (\<lambda>m. rust_safe_field_id (fld_key m)) members"
  by (induction members arbitrary: arms) (auto split: sum.splits)

lemma find_arm_nonneg:
  "list_all (\<lambda>m. 0 \<le> sint (fld_key m)) members \<Longrightarrow>
   map arm_member arms = members \<Longrightarrow>
   map arm_pattern arms = map (\<lambda>m. rust_safe_field_id (fld_key m)) members \<Longrightarrow>
   map_option arm_member (find (\<lambda>arm. rust_pattern_matches (arm_pattern arm) i) arms)
     = find (\<lambda>m. sint (fld_key m) = i) members"
proof (induction members arbitrary: arms)
  case Nil
  then show ?case by simp
next
  case (Cons m ms)
  then obtain a as where arms: "arms = a # as" by (cases arms) auto
  with Cons.prems have a: "arm_member a = m" "arm_pattern a = rust_safe_field_id (fld_key m)"
    and nn: "0 \<le> sint (fld_key m)" by simp_all
  from Cons.prems arms have "map_option arm_member
      (find (\<lambda>arm. rust_pattern_matches (arm_pattern arm) i) as)
     = find (\<lambda>m. sint (fld_key m) = i) ms"
    by (intro Cons.IH) simp_all
  with a nn show ?case
    by (simp add: arms rust_pattern_matches_nonneg_key)
qed

lemma union_read_loop_nonneg:
  assumes "list_all (\<lambda>m. 0 \<le> sint (fld_key m)) members"
    and "map arm_member arms = members"
    and "map arm_pattern arms = map (\<lambda>m. rust_safe_field_id (fld_key m)) members"
  shows "union_read_loop arms st wire = spec_union_read_loop members st wire"
proof (induction wire arbitrary: st)
  case Nil
  show ?case by (cases st) simp
next
  case (Cons field wire)
  obtain ret n where st: "st = (ret, n)" by (cases st)
  have f: "map_option arm_member
      (find (\<lambda>arm. rust_pattern_matches (arm_pattern arm) (wf_id field)) arms)
     = find (\<lambda>m. sint (fld_key m) = wf_id field) members"
    using assms by (rule find_arm_nonneg)
  show ?case
  proof (cases "find (\<lambda>arm. rust_pattern_matches (arm_pattern arm) (wf_id field)) arms")
    case None
    with f have "find (\<lambda>m. sint (fld_key m) = wf_id field) members = None" by simp
    with None show ?thesis by (simp add: st Cons.IH)
  next
    case (Some arm)
    with f have "find (\<lambda>m. sint (fld_key m) = wf_id field) members = Some (arm_member arm)"
      by simp
    with Some show ?thesis by (simp add: st Cons.IH)
  qed
qed

lemma no_malformed_nonneg:
  "list_all (\<lambda>m. 0 \<le> sint (fld_key m)) members \<Longrightarrow>
   map arm_pattern arms = map (\<lambda>m. rust_safe_field_id (fld_key m)) members \<Longrightarrow>
   \<not> list_ex (\<lambda>arm. rust_pattern_kind (arm_pattern arm) = Malformed_pattern) arms"
proof (induction members arbitrary: arms)
  case Nil
  then show ?case by simp
next
  case (Cons m ms)
  then obtain a as where arms: "arms = a # as" by (cases arms) auto
  with Cons show ?case
    by (simp add: rust_safe_field_id_nonneg rust_pattern_kind_dec_nat)
qed

lemma union_read_follows_spec_nonneg:
  assumes "list_all (\<lambda>m. 0 \<le> sint (fld_key m)) (st_members tstruct)"
    and "render_union_sync_read mg union_name tstruct = Inr code"
  shows "run_union_read code wire
           = Some (spec_union_read union_name (get_sorted_members tstruct) wire)"
proof -
  from assms(2) obtain arms where
    arms: "render_union_read_arms mg (get_sorted_members tstruct) = Inr arms"
    and code: "code = \<lparr>ur_union_name = union_name, ur_arms = arms\<rparr>"
    by (auto simp: render_union_sync_read_def split: sum.splits)
  from assms(1) have nn: "list_all (\<lambda>m. 0 \<le> sint (fld_key m)) (get_sorted_members tstruct)"
    by (simp add: get_sorted_members_def list_all_iff)
  note shape = render_union_read_arms_shape [OF arms]
  from shape nn have "\<not> list_ex (\<lambda>arm. rust_pattern_kind (arm_pattern arm) = Malformed_pattern) arms"
    by (intro no_malformed_nonneg) simp_all
  moreover from shape nn have "union_read_loop arms (None, 0) wire
      = spec_union_read_loop (get_sorted_members tstruct) (None, 0) wire"
    by (intro union_read_loop_nonneg) simp_all
  ultimately show ?thesis
    by (simp add: run_union_read_def code spec_union_read_def)
qed

lemma neg_union_sorted: "get_sorted_members neg_union = [field_a, field_b]"
  by (simp add: get_sorted_members_def neg_union_def field_a_def field_b_def)

lemma neg_union_read_rendered:
  "render_union_sync_read plain_mangler ''U'' neg_union = Inr neg_union_read"
  by (simp add: render_union_sync_read_def neg_union_sorted neg_union_read_def)
     (simp add: field_a_def field_b_def rust_safe_field_id_neg1 rust_safe_field_id_2)

text \<open>
  A union with members gets its enum definition written behind the comment block.
\<close>

lemma neg_union_written:
  "ue_written (render_union plain_mangler neg_union)
     = [''//'', ''// U'', ''//'', '''',
        ''#[derive(Clone, Debug, Eq, Hash, Ord, PartialEq, PartialOrd)]'',
        ''pub enum U {'', ''  a(i32),'', ''  b(i32),'', ''}'', '''']"
  by (simp add: render_union_def render_union_definition_def neg_union_sorted Let_def)
    (simp add: render_type_comment_def rust_struct_name_def rust_safe_name_def
      rust_union_field_name_def indent_one_def is_reserved_def RUST_RESERVED_WORDS_def
      plain_mangler_def neg_union_def field_a_def field_b_def)

text \<open>
  C1 (union read). The claim: for every union the generated read function takes the arm
  of a known field id, sets \<open>ret\<close> to that variant if it is still empty, and skips an
  unknown id. The arm of a member is labelled \<^verbatim>\<open>rust_safe_field_id(key)\<close>. For a negative
  key this is the identifier \<open>neg<n>\<close>, and an identifier as a match pattern binds every
  value. Members are sorted by ascending key, so that arm comes first and takes every
  field id. For \<^verbatim>\<open>union U { -1: i32 a; 2: i32 b }\<close> and a wire union holding field 2
  with the value 7, the generated function returns variant \<open>a\<close> of 7; by the claim it is
  variant \<open>b\<close> of 7.
\<close>

theorem C1_negative_id_arm_catches_all:
  "render_union_sync_read plain_mangler ''U'' neg_union = Inr neg_union_read
   \<and> run_union_read neg_union_read [Wire_field 2 (7 :: int)] = Some (Inr (field_a, 7))
   \<and> spec_union_read ''U'' (get_sorted_members neg_union) [Wire_field 2 (7 :: int)]
       = Inr (field_b, 7)"
proof -
  have k1: "rust_pattern_kind ''neg1'' = Binding_pattern"
    by (simp add: rust_pattern_kind_def is_digit_def is_ident_char_def is_lower_def)
  have k2: "rust_pattern_kind ''2'' = Literal_pattern"
    by (simp add: rust_pattern_kind_def is_digit_def)
  have "run_union_read neg_union_read [Wire_field 2 (7 :: int)] = Some (Inr (field_a, 7))"
    by (simp add: run_union_read_def neg_union_read_def k1 k2 rust_pattern_matches_def
        union_read_result_def)
  moreover have "spec_union_read ''U'' (get_sorted_members neg_union) [Wire_field 2 (7 :: int)]
       = Inr (field_b, 7)"
    by (simp add: spec_union_read_def neg_union_sorted union_read_result_def)
       (simp add: field_a_def field_b_def)
  ultimately show ?thesis using neg_union_read_rendered by simp
qed

subsection \<open>\<open>ok_or\<close>\<close>

lemma calc_add_result_sorted:
  "get_sorted_members calc_add_result = [result_value_field, overflow_field]"
  by (simp add: get_sorted_members_def calc_add_result_def result_value_field_def
      overflow_field_def)

lemma calc_add_result_name: "st_name calc_add_result = ''CalcAddResult''"
  by (simp add: calc_add_result_def)

lemma calc_add_ok_or_rendered:
  "render_result_struct_to_result_method plain_mangler calc_add_result = Inr calc_add_ok_or"
proof -
  have "str_find ''CalcAddResult'' RESULT_STRUCT_SUFFIX 0 = Some 7"
    by (simp add: str_find_def RESULT_STRUCT_SUFFIX_def)
  moreover have "str_replace ''CalcAddResult'' 7 6 [] = ''CalcAdd''"
    by (simp add: str_replace_def)
  moreover have "rust_return_type plain_mangler [result_value_field, overflow_field] = Inr ''i32''"
    by (simp add: result_value_field_def SERVICE_RESULT_VARIABLE_def)
  moreover have "filter (\<lambda>tfield. fld_name tfield \<noteq> SERVICE_RESULT_VARIABLE)
      [result_value_field, overflow_field] = [overflow_field]"
    by (simp add: result_value_field_def overflow_field_def SERVICE_RESULT_VARIABLE_def)
  ultimately show ?thesis
    by (simp add: render_result_struct_to_result_method_def calc_add_result_sorted
        calc_add_result_name calc_add_ok_or_def)
qed

lemma rust_return_type_no_result_member:
  "\<not> list_ex (\<lambda>tfield. fld_name tfield = SERVICE_RESULT_VARIABLE) members \<Longrightarrow>
     rust_return_type mg members = Inr ''()''"
  by (induction members) auto

text \<open>
  C2 as stated fails: when the return field and an exception field are both present,
  the generated \<open>ok_or\<close> returns the exception as a user error; by the claim it returns
  the return field.
\<close>

theorem C2_exception_checked_first:
  "render_result_struct_to_result_method plain_mangler calc_add_result = Inr calc_add_ok_or
   \<and> run_ok_or calc_add_ok_or both_present = Inl (User_error ''overflow'')
   \<and> spec_ok_or (get_sorted_members calc_add_result) ''CalcAdd'' both_present
       = Inr (Value ''7'')"
proof -
  have "run_ok_or calc_add_ok_or both_present = Inl (User_error ''overflow'')"
    by (simp add: run_ok_or_def calc_add_ok_or_def both_present_def overflow_field_def)
  moreover have "spec_ok_or (get_sorted_members calc_add_result) ''CalcAdd'' both_present
       = Inr (Value ''7'')"
    by (simp add: spec_ok_or_def both_present_def SERVICE_RESULT_VARIABLE_def)
  ultimately show ?thesis using calc_add_ok_or_rendered by simp
qed

text \<open>
  C2, amended: \<open>ok_or\<close> returns the first present exception field, in sorted field order,
  wrapped as a user error, whether or not the return field is present. With no
  exception field present it returns \<open>Ok(())\<close> when the Rust return type is \<open>()\<close> (as it
  is when the struct has no \<^verbatim>\<open>result_value\<close> member), and otherwise the return field if
  present, else a missing-result application error whose message is "no result
  received for" followed by the name of the service call that the generator has put
  into the method.
\<close>

theorem C2_ok_or:
  assumes "render_result_struct_to_result_method mg tstruct = Inr code"
  shows "(\<not> list_ex (\<lambda>tfield. fld_name tfield = SERVICE_RESULT_VARIABLE) (get_sorted_members tstruct)
          \<longrightarrow> rust_return_type mg (get_sorted_members tstruct) = Inr ''()'')
     \<and> run_ok_or code self =
     (case first_present
             (filter (\<lambda>tfield. fld_name tfield \<noteq> SERVICE_RESULT_VARIABLE)
                (get_sorted_members tstruct)) self of
        Some e \<Rightarrow> Inl (User_error e)
      | None \<Rightarrow>
          if rust_return_type mg (get_sorted_members tstruct) = Inr ''()'' then Inr Unit
          else (case self SERVICE_RESULT_VARIABLE of
                  Some v \<Rightarrow> Inr (Value v)
                | None \<Rightarrow>
                    Inl (Application_error MissingResult
                          (''no result received for '' @ ok_service_call_name code))))"
  using assms rust_return_type_no_result_member [of "get_sorted_members tstruct" mg]
  by (auto simp: render_result_struct_to_result_method_def run_ok_or_def Let_def
      split: option.splits sum.splits)

theorem C2_ok_or_witness:
  "run_ok_or calc_add_ok_or only_result_present = Inr (Value ''7'')
   \<and> run_ok_or calc_add_ok_or both_present = Inl (User_error ''overflow'')
   \<and> run_ok_or calc_add_ok_or Map.empty
       = Inl (Application_error MissingResult ''no result received for CalcAdd'')"
  using C2_ok_or [OF calc_add_ok_or_rendered, of only_result_present]
    C2_ok_or [OF calc_add_ok_or_rendered, of both_present]
    C2_ok_or [OF calc_add_ok_or_rendered, of Map.empty]
  by (simp add: calc_add_result_sorted SERVICE_RESULT_VARIABLE_def result_value_field_def
      overflow_field_def only_result_present_def both_present_def plain_mangler_def
      calc_add_ok_or_def)

subsection \<open>Dispatch arms of a processor\<close>

lemma match_arm_targets:
  "map pa_target (render_process_match_statements tservice)
     = concat (map svc_functions (service_chain tservice))"
proof (induction tservice rule: render_process_match_statements.induct)
  case (1 name funs extends)
  then show ?case by (cases extends) (simp_all add: comp_def)
qed

lemma match_arm_patterns:
  "map pa_pattern (render_process_match_statements tservice)
     = map fn_name (map pa_target (render_process_match_statements tservice))"
proof (induction tservice rule: render_process_match_statements.induct)
  case (1 name funs extends)
  then show ?case by (cases extends) (simp_all add: comp_def)
qed

lemma spec_flattened_functions_set:
  "set (spec_flattened_functions tservice)
     = set (concat (map svc_functions (service_chain tservice)))"
proof (induction tservice rule: spec_flattened_functions.induct)
  case (1 name funs extends)
  then show ?case by (cases extends) auto
qed

text \<open>
  C6 as stated fails: for \<^verbatim>\<open>Calc extends Base\<close> the arm of \<^verbatim>\<open>add\<close>, declared by the child,
  comes before the arm of \<^verbatim>\<open>ping\<close>, declared by the parent.
\<close>

theorem C6_child_arms_first:
  "map pa_pattern (render_process_match_statements calc_service) = [''add'', ''ping'']
   \<and> map fn_name (spec_flattened_functions calc_service) = [''ping'', ''add'']"
  by (simp add: calc_service_def base_service_def simple_function_def)

text \<open>
  C6, amended: the dispatch match has one arm for every function of the service and of
  all its ancestors, labelled with the original name: first the functions of the service
  itself in declaration order, then those of its parent, and so on up the chain, the
  arms of a child before those of its parents.
\<close>

theorem C6_match_arms:
  "map pa_target (render_process_match_statements tservice)
     = concat (map svc_functions (service_chain tservice))
   \<and> map pa_pattern (render_process_match_statements tservice)
     = map fn_name (concat (map svc_functions (service_chain tservice)))
   \<and> set (map pa_target (render_process_match_statements tservice))
     = set (spec_flattened_functions tservice)"
  using match_arm_patterns [of tservice]
  by (simp add: match_arm_targets spec_flattened_functions_set)

theorem C6_match_arms_witness:
  "map pa_pattern (render_process_match_statements calc_service) = [''add'', ''ping'']"
  using C6_match_arms [of calc_service]
  by (simp add: calc_service_def base_service_def simple_function_def)

subsection \<open>Snake case\<close>

lemma str_find_first_None_collapse:
  "str_find_first s ''__'' = None \<Longrightarrow> collapse_pairs s = s"
  by (induction s rule: collapse_pairs.induct) (auto split: if_splits)

lemma str_find_first_Some_collapse:
  "str_find_first s ''__'' = Some k \<Longrightarrow>
     k + 2 \<le> length s \<and> collapse_pairs s = take k s @ ''_'' @ collapse_pairs (drop (k + 2) s)"
proof (induction s arbitrary: k rule: collapse_pairs.induct)
  case (1 a b r)
  show ?case
  proof (cases "a = CHR ''_'' \<and> b = CHR ''_''")
    case True
    with 1 show ?thesis by simp
  next
    case False
    with "1.prems" obtain k' where k': "k = Suc k'" "str_find_first (b # r) ''__'' = Some k'"
      by (auto split: if_splits)
    with "1.IH"(2) [OF False k'(2)] False show ?thesis by auto
  qed
qed (auto split: if_splits)

text \<open>
  The loop of \<^verbatim>\<open>string_replace\<close> with \<open>__\<close> and \<open>_\<close> returns, and returns what is in front
  of \<open>search_idx\<close> followed by one pass of \<open>collapse_pairs\<close> over the rest.
\<close>

lemma string_replace_loop_collapse:
  "idx \<le> length target \<Longrightarrow>
     string_replace_loop target ''__'' ''_'' idx
       = Some (take idx target @ collapse_pairs (drop idx target))"
proof (induction "length target - idx" arbitrary: target idx rule: less_induct)
  case less
  show ?case
  proof (cases "str_find_first (drop idx target) ''__''")
    case None
    with less.prems show ?thesis
      by (subst string_replace_loop.simps)
         (simp add: str_find_def str_find_first_None_collapse)
  next
    case (Some k)
    from str_find_first_Some_collapse [OF Some] less.prems
    have len: "idx + k + 2 \<le> length target"
      and col: "collapse_pairs (drop idx target)
          = take k (drop idx target) @ ''_'' @ collapse_pairs (drop (idx + k + 2) target)"
      by (auto simp: add.commute add.left_commute)
    let ?t = "take (idx + k) target @ ''_'' @ drop (idx + k + 2) target"
    have lt: "length ?t = length target - 1" using len by simp
    have "string_replace_loop ?t ''__'' ''_'' (idx + k + 1)
        = Some (take (idx + k + 1) ?t @ collapse_pairs (drop (idx + k + 1) ?t))"
      using len lt by (intro less.hyps) simp_all
    moreover have "take (idx + k + 1) ?t = take (idx + k) target @ ''_''"
      using len by simp
    moreover have "drop (idx + k + 1) ?t = drop (idx + k + 2) target"
      using len by simp
    moreover have "take (idx + k) target = take idx target @ take k (drop idx target)"
      by (simp add: take_add)
    ultimately have "string_replace_loop ?t ''__'' ''_'' (idx + k + 1)
        = Some (take idx target @ collapse_pairs (drop idx target))"
      using col by simp
    moreover have "str_find target ''__'' idx = Some (idx + k)"
      using Some less.prems by (simp add: str_find_def)
    ultimately show ?thesis
      by (subst string_replace_loop.simps) (simp add: str_replace_def)
  qed
qed

lemma string_replace_collapse:
  "string_replace target ''__'' ''_'' = Some (collapse_pairs target)"
  using string_replace_loop_collapse [of 0 target]
  by (cases target) (simp_all add: string_replace_def)

lemma rust_snake_case_collapse:
  "rust_snake_case name = Some (collapse_pairs (decapitalize (underscore name)))"
  by (simp add: rust_snake_case_def string_replace_collapse)

lemma contains_double_Cons:
  "contains (a # s) ''__'' \<longleftrightarrow> (a = CHR ''_'' \<and> starts_with_underscore s) \<or> contains s ''__''"
  by (cases s) (auto simp: contains_def)

lemma contains_triple_Cons:
  "contains (a # b # s) ''___'' \<longleftrightarrow>
     (a = CHR ''_'' \<and> b = CHR ''_'' \<and> starts_with_underscore s) \<or> contains (b # s) ''___''"
  by (cases s) (auto simp: contains_def)

lemma starts_with_underscore_collapse:
  "starts_with_underscore (collapse_pairs s) = starts_with_underscore s"
  by (induction s rule: collapse_pairs.induct) auto

lemma contains_triple_skip:
  "c \<noteq> CHR ''_'' \<Longrightarrow> contains (a # c # s) ''___'' = contains (c # s) ''___''"
  by (cases s) (auto simp: contains_def)

lemma contains_triple_short: "\<not> contains [a] ''___''" "\<not> contains [] ''___''"
  by (simp_all add: contains_def)

lemma contains_double_short: "\<not> contains [a] ''__''" "\<not> contains [] ''__''"
  by (simp_all add: contains_def)

lemma collapse_pairs_double_iff_triple:
  "contains (collapse_pairs s) ''__'' \<longleftrightarrow> contains s ''___''"
proof (induction s rule: collapse_pairs.induct)
  case (1 a b r)
  show ?case
  proof (cases "a = CHR ''_'' \<and> b = CHR ''_''")
    case True
    have "contains (CHR ''_'' # r) ''___'' \<longleftrightarrow> contains r ''___''" if "\<not> starts_with_underscore r"
      using that by (cases r) (auto simp: contains_triple_short contains_triple_skip)
    with True 1 show ?thesis
      by (auto simp: contains_double_Cons contains_triple_Cons starts_with_underscore_collapse)
  next
    case False
    with 1 show ?thesis
      by (auto simp: contains_double_Cons contains_triple_Cons starts_with_underscore_collapse)
  qed
qed (simp_all add: contains_triple_short contains_double_short)

text \<open>
  C9 as stated fails: a run of three underscores leaves two. The name \<open>a___b\<close> becomes
  \<open>a__b\<close>.
\<close>

theorem C9_run_of_three_not_collapsed:
  "rust_snake_case ''a___b'' = Some ''a__b'' \<and> contains ''a__b'' ''__''"
  by (simp add: rust_snake_case_collapse contains_def to_lower_def is_upper_def)

text \<open>
  C9, amended: the snake-casing returns for every name; it replaces the pairs of
  underscores it meets in one pass from left to right, so its output has two
  consecutive underscores exactly when the name, decapitalized and with the underscores
  in front of capitals put in, has three consecutive underscores.
\<close>

theorem C9_snake_case_single_pass:
  "\<exists>out. rust_snake_case name = Some out
     \<and> (contains out ''__'' \<longleftrightarrow> contains (decapitalize (underscore name)) ''___'')"
  by (simp add: rust_snake_case_collapse collapse_pairs_double_iff_triple)

theorem C9_snake_case_single_pass_witness:
  "rust_snake_case ''getFooBar'' = Some ''get_foo_bar'' \<and> \<not> contains ''get_foo_bar'' ''__''"
  using C9_snake_case_single_pass [of "''getFooBar''"]
  by (simp add: rust_snake_case_collapse contains_def to_lower_def is_upper_def)

subsection \<open>Enum conversions\<close>

lemma rust_enum_variant_name_total: "\<exists>n. rust_enum_variant_name name = Some n"
  by (simp add: rust_enum_variant_name_def string_replace_collapse Let_def)

lemma render_enum_total:
  "\<exists>cs arms. render_enum_constants constants = Some cs
     \<and> render_enum_from_arms constants = Some arms
     \<and> (\<forall>v n. (v, n) \<in> set arms \<longrightarrow> (n, Rust_enum v) \<in> set cs)"
proof (induction constants)
  case Nil
  show ?case by simp
next
  case (Cons val constants)
  then obtain cs arms where "render_enum_constants constants = Some cs"
    "render_enum_from_arms constants = Some arms"
    "\<forall>v n. (v, n) \<in> set arms \<longrightarrow> (n, Rust_enum v) \<in> set cs" by blast
  moreover obtain n where "rust_enum_variant_name (ev_name val) = Some n"
    using rust_enum_variant_name_total by blast
  ultimately show ?case by auto
qed

lemma example_enum_generated: "generate_enum example_enum = Some example_enum_code"
  by (simp add: generate_enum_def example_enum_def example_enum_code_def
      rust_enum_variant_name_def string_replace_collapse uppercase_def to_upper_def
      to_lower_def is_lower_def is_upper_def Let_def)

lemma clash_enum_generated: "generate_enum clash_enum = Some clash_enum_code"
  by (simp add: generate_enum_def clash_enum_def clash_enum_code_def
      rust_enum_variant_name_def string_replace_collapse uppercase_def to_upper_def
      to_lower_def is_lower_def is_upper_def Let_def)

text \<open>
  C10 as stated fails: in \<^verbatim>\<open>enum Level { LOW = 0, Low = 1 }\<close> both names are written as
  \<^verbatim>\<open>LOW\<close>, so the arm \<^verbatim>\<open>1 => Level::LOW\<close> names a constant that is defined twice. Read as
  the first definition, \<^verbatim>\<open>Level(0)\<close>, the value 1 comes back as 0 (and the Rust compiler
  refuses the second definition, so that no conversion exists at all).
\<close>

theorem C10_clashing_variant_names:
  "generate_enum clash_enum = Some clash_enum_code
   \<and> map_option i32_from_enum (enum_from_i32 clash_enum_code 1) = Some 0"
proof -
  have "map_option i32_from_enum (enum_from_i32 clash_enum_code 1) = Some 0"
    by (simp add: enum_from_i32_def clash_enum_code_def)
  with clash_enum_generated show ?thesis by simp
qed

text \<open>
  C10, amended: the enum code is generated for every enum, and whenever its associated
  constants have distinct names, converting any \<^verbatim>\<open>i32\<close> into the enum and back gives the
  same \<^verbatim>\<open>i32\<close>: the arm of a declared value names the constant holding that value, and
  the fallback arm keeps the raw value.
\<close>

theorem C10_enum_round_trip:
  "(\<exists>code. generate_enum tenum = Some code)
   \<and> (\<forall>code. generate_enum tenum = Some code \<and> distinct (map fst (ec_constants code))
        \<longrightarrow> map_option i32_from_enum (enum_from_i32 code i) = Some i)"
proof -
  obtain cs arms where cs: "render_enum_constants (en_constants tenum) = Some cs"
    and arms: "render_enum_from_arms (en_constants tenum) = Some arms"
    and rel: "\<forall>v n. (v, n) \<in> set arms \<longrightarrow> (n, Rust_enum v) \<in> set cs"
    using render_enum_total by blast
  have gen: "generate_enum tenum = Some \<lparr>ec_constants = cs, ec_from_arms = arms\<rparr>"
    by (simp add: generate_enum_def cs arms)
  have "map_option i32_from_enum (enum_from_i32 \<lparr>ec_constants = cs, ec_from_arms = arms\<rparr> i) = Some i"
    if d: "distinct (map fst cs)"
  proof (cases "find (\<lambda>arm. fst arm = i) arms")
    case None
    then show ?thesis by (simp add: enum_from_i32_def)
  next
    case (Some arm)
    then have "arm \<in> set arms" "fst arm = i"
      by (auto simp: find_Some_iff)
    with rel have "(snd arm, Rust_enum i) \<in> set cs"
      by (cases arm) auto
    with d have "map_of cs (snd arm) = Some (Rust_enum i)" by simp
    with Some show ?thesis by (simp add: enum_from_i32_def)
  qed
  with gen show ?thesis by auto
qed

theorem C10_enum_round_trip_witness:
  "map_option i32_from_enum (enum_from_i32 example_enum_code 2) = Some 2
   \<and> map_option i32_from_enum (enum_from_i32 example_enum_code 7) = Some 7"
  using C10_enum_round_trip [of example_enum 2] C10_enum_round_trip [of example_enum 7]
  by (simp add: example_enum_generated) (simp add: example_enum_code_def)

end
